theory Spec2Isabelle
  imports Complex_Main "HOL-Library.AList"
begin

section \<open>Python values\<close>

text \<open>
  The classification result is whatever \<^verbatim>\<open>json.loads\<close> makes of the engine's text, so
  it is dynamically typed: the code reads it with \<^verbatim>\<open>in\<close>, \<^verbatim>\<open>.get\<close> and subscripts, each
  of which raises on a value of the wrong shape. A JSON object is an association list
  (its keys are strings), looked up with \<^const>\<open>map_of\<close>. A float is modelled by the
  real number it denotes.
\<close>

datatype pyval =
    PNone
  | PBool bool
  | PInt int
  | PFloat real
  | PStr string
  | PList "pyval list"
  | PDict "(string \<times> pyval) list"

datatype error =
    AttributeError
  | KeyError
  | TypeError
  | ValueError
  | OverflowError
  | InterfaceError

definition bind_err :: "error + 'a \<Rightarrow> ('a \<Rightarrow> error + 'b) \<Rightarrow> error + 'b" where
  "bind_err m f = (case m of Inl e \<Rightarrow> Inl e | Inr x \<Rightarrow> f x)"

text \<open>\<^verbatim>\<open>p in s\<close> on two strings: \<open>p\<close> occurs in \<open>s\<close> as a contiguous substring.\<close>

fun starts_with :: "string \<Rightarrow> string \<Rightarrow> bool" where
  "starts_with s [] = True"
| "starts_with [] (p # ps) = False"
| "starts_with (c # cs) (p # ps) = (c = p \<and> starts_with cs ps)"

fun str_contains :: "string \<Rightarrow> string \<Rightarrow> bool" where
  "str_contains [] p = (p = [])"
| "str_contains (c # cs) p = (starts_with (c # cs) p \<or> str_contains cs p)"

text \<open>\<^verbatim>\<open>key in v\<close> for a string key: keys of a dict, elements of a list, substrings of a
  string; \<^verbatim>\<open>TypeError\<close> on anything else.\<close>

fun py_in :: "string \<Rightarrow> pyval \<Rightarrow> error + bool" where
  "py_in k (PDict kvs) = Inr (k \<in> set (map fst kvs))"
| "py_in k (PList vs) = Inr (PStr k \<in> set vs)"
| "py_in k (PStr s) = Inr (str_contains s k)"
| "py_in k _ = Inl TypeError"

text \<open>\<^verbatim>\<open>v.get(key, default)\<close>: only a dict has the method.\<close>

fun py_get :: "pyval \<Rightarrow> string \<Rightarrow> pyval \<Rightarrow> error + pyval" where
  "py_get (PDict kvs) k d = Inr (case map_of kvs k of None \<Rightarrow> d | Some v \<Rightarrow> v)"
| "py_get _ k d = Inl AttributeError"

text \<open>\<^verbatim>\<open>v[key]\<close> for a string key.\<close>

fun py_index :: "pyval \<Rightarrow> string \<Rightarrow> error + pyval" where
  "py_index (PDict kvs) k = (case map_of kvs k of None \<Rightarrow> Inl KeyError | Some v \<Rightarrow> Inr v)"
| "py_index _ k = Inl TypeError"

text \<open>The truth value of a Python object.\<close>

fun py_truthy :: "pyval \<Rightarrow> bool" where
  "py_truthy PNone = False"
| "py_truthy (PBool b) = b"
| "py_truthy (PInt i) = (i \<noteq> 0)"
| "py_truthy (PFloat x) = (x \<noteq> 0)"
| "py_truthy (PStr s) = (s \<noteq> [])"
| "py_truthy (PList vs) = (vs \<noteq> [])"
| "py_truthy (PDict kvs) = (kvs \<noteq> [])"

text \<open>\<^verbatim>\<open>n + v\<close> with an \<^verbatim>\<open>int\<close> on the left.\<close>

fun py_add_int :: "int \<Rightarrow> pyval \<Rightarrow> error + pyval" where
  "py_add_int n (PInt i) = Inr (PInt (n + i))"
| "py_add_int n (PBool b) = Inr (PInt (n + (if b then 1 else 0)))"
| "py_add_int n (PFloat x) = Inr (PFloat (real_of_int n + x))"
| "py_add_int n _ = Inl TypeError"

text \<open>
  Binding a Python value to a statement parameter (module \<^verbatim>\<open>sqlite3\<close>): \<^verbatim>\<open>None\<close>,
  \<^verbatim>\<open>int\<close>, \<^verbatim>\<open>float\<close> and \<^verbatim>\<open>str\<close> are supported, a \<^verbatim>\<open>bool\<close> is an \<^verbatim>\<open>int\<close>, an \<^verbatim>\<open>int\<close>
  outside 64 bits and a list or dict raise. The conversions of SQLite's column
  affinity are not modelled: a column holds the value that was bound.
\<close>

fun bind_param :: "pyval \<Rightarrow> error + pyval" where
  "bind_param PNone = Inr PNone"
| "bind_param (PBool b) = Inr (PInt (if b then 1 else 0))"
| "bind_param (PInt i) =
     (if - (2 ^ 63) \<le> i \<and> i < 2 ^ 63 then Inr (PInt i) else Inl OverflowError)"
| "bind_param (PFloat x) = Inr (PFloat x)"
| "bind_param (PStr s) = Inr (PStr s)"
| "bind_param (PList vs) = Inl InterfaceError"
| "bind_param (PDict kvs) = Inl InterfaceError"

section \<open>The run store (src/database.py)\<close>

text \<open>An email as the mailbox client returns it (the dict of \<^verbatim>\<open>_get_email_details\<close>).\<close>

record email =
  msg_id :: string
  msg_subject :: string
  msg_sender :: string
  msg_date :: string
  msg_snippet :: string
  msg_is_unread :: bool
  msg_labels :: "string list"

datatype run_status = Pending | Completed | Superseded

text \<open>Table \<^verbatim>\<open>analysis_runs\<close>, columns in the order of the schema.\<close>

record run =
  ar_id :: nat
  run_date :: string
  total_emails :: pyval
  recommended_deletions :: pyval
  needs_review :: pyval
  keep_emails :: pyval
  status :: run_status
  current_page_token :: "string option"
  next_page_token :: "string option"
  created_at :: nat

text \<open>Table \<^verbatim>\<open>email_analysis\<close>.\<close>

record email_row =
  ea_id :: nat
  run_id :: nat
  email_id :: string
  subject :: string
  sender :: string
  date :: string
  snippet :: string
  is_unread :: bool
  recommended_action :: pyval
  category :: pyval
  confidence :: pyval
  reason :: pyval
  user_decision :: "string option"
  processed_at :: "nat option"

text \<open>Table \<^verbatim>\<open>deleted_emails\<close>.\<close>

record deleted_row =
  de_id :: nat
  de_email_id :: string
  de_subject :: string
  de_sender :: string
  deleted_at :: nat
  can_restore :: bool

record store =
  analysis_runs :: "run list"
  email_analysis :: "email_row list"
  deleted_emails :: "deleted_row list"

text \<open>
  The clock the store reads: \<^verbatim>\<open>datetime.now().strftime('%Y-%m-%d')\<close> and SQLite's
  \<^verbatim>\<open>CURRENT_TIMESTAMP\<close>.
\<close>

record clock =
  today :: string
  timestamp :: nat

text \<open>
  \<^verbatim>\<open>INTEGER PRIMARY KEY AUTOINCREMENT\<close>: one more than the largest id ever used. No row
  is ever deleted and no id is ever given explicitly, so that is the largest id present.
\<close>

definition next_id :: "nat list \<Rightarrow> nat" where
  "next_id ids = Suc (fold max ids 0)"

text \<open>
  The loop that builds the rows of a page, the same text in \<^verbatim>\<open>save_analysis_run\<close>,
  \<^verbatim>\<open>save_page_analysis\<close> and (for the new emails) \<^verbatim>\<open>merge_reanalysis_with_new_page\<close>:
  \<^verbatim>\<open>email_analysis = analysis['analysis'].get(email['id'], {})\<close> and four \<^verbatim>\<open>.get\<close>
  with the defaults. The ids are given when the rows are inserted.
\<close>

definition page_row :: "pyval \<Rightarrow> nat \<Rightarrow> email \<Rightarrow> error + email_row" where
  "page_row analysis rid e =
     bind_err (py_index analysis ''analysis'') (\<lambda>amap.
     bind_err (py_get amap (msg_id e) (PDict [])) (\<lambda>email_analysis.
     bind_err (py_get email_analysis ''action'' (PStr ''review'')) (\<lambda>a.
     bind_err (py_get email_analysis ''category'' (PStr ''other'')) (\<lambda>c.
     bind_err (py_get email_analysis ''confidence'' (PFloat 0.5)) (\<lambda>cf.
     bind_err (py_get email_analysis ''reason'' (PStr ''No analysis available'')) (\<lambda>rs.
     Inr \<lparr> ea_id = 0, run_id = rid, email_id = msg_id e, subject = msg_subject e,
           sender = msg_sender e, date = msg_date e, snippet = msg_snippet e,
           is_unread = msg_is_unread e, recommended_action = a, category = c,
           confidence = cf, reason = rs, user_decision = None, processed_at = None \<rparr>))))))"

fun page_rows :: "pyval \<Rightarrow> nat \<Rightarrow> email list \<Rightarrow> error + email_row list" where
  "page_rows analysis rid [] = Inr []"
| "page_rows analysis rid (e # es) =
     bind_err (page_row analysis rid e) (\<lambda>r.
     bind_err (page_rows analysis rid es) (\<lambda>rs. Inr (r # rs)))"

text \<open>\<^verbatim>\<open>executemany\<close> of the insert into \<^verbatim>\<open>email_analysis\<close>: every parameter is bound,
  and the rows get consecutive ids.\<close>

definition bind_row :: "email_row \<Rightarrow> error + email_row" where
  "bind_row r =
     bind_err (bind_param (recommended_action r)) (\<lambda>a.
     bind_err (bind_param (category r)) (\<lambda>c.
     bind_err (bind_param (confidence r)) (\<lambda>cf.
     bind_err (bind_param (reason r)) (\<lambda>rs.
     Inr (r\<lparr> recommended_action := a, category := c, confidence := cf, reason := rs \<rparr>)))))"

fun insert_email_rows :: "nat \<Rightarrow> email_row list \<Rightarrow> error + email_row list" where
  "insert_email_rows n [] = Inr []"
| "insert_email_rows n (r # rs) =
     bind_err (bind_row r) (\<lambda>r'.
     bind_err (insert_email_rows (Suc n) rs) (\<lambda>rs'. Inr (r'\<lparr> ea_id := n \<rparr> # rs')))"

text \<open>
  The insert into \<^verbatim>\<open>analysis_runs\<close>. Each store operation is one \<^verbatim>\<open>with
  sqlite3.connect(...)\<close> block: it commits at its end, and an exception inside rolls
  back what it had inserted, so an operation that returns \<open>Inl\<close> leaves the store as
  it was.
\<close>

definition insert_run ::
  "store \<Rightarrow> clock \<Rightarrow> pyval \<Rightarrow> pyval \<Rightarrow> pyval \<Rightarrow> pyval \<Rightarrow> string option \<Rightarrow> string option
     \<Rightarrow> error + run" where
  "insert_run st clk te rd nr ke current_token next_token =
     bind_err (bind_param te) (\<lambda>te'.
     bind_err (bind_param rd) (\<lambda>rd'.
     bind_err (bind_param nr) (\<lambda>nr'.
     bind_err (bind_param ke) (\<lambda>ke'.
     Inr \<lparr> ar_id = next_id (map ar_id (analysis_runs st)), run_date = today clk,
           total_emails = te', recommended_deletions = rd', needs_review = nr',
           keep_emails = ke', status = Pending, current_page_token = current_token,
           next_page_token = next_token, created_at = timestamp clk \<rparr>))))"

definition save_page_analysis ::
  "store \<Rightarrow> clock \<Rightarrow> email list \<Rightarrow> pyval \<Rightarrow> string option \<Rightarrow> string option
     \<Rightarrow> error + (nat \<times> store)" where
  "save_page_analysis st clk emails analysis current_token next_token =
     bind_err (py_get analysis ''summary'' (PDict [])) (\<lambda>summary.
     bind_err (py_get summary ''total_emails'' (PInt 0)) (\<lambda>te.
     bind_err (py_get summary ''recommended_deletions'' (PInt 0)) (\<lambda>rd.
     bind_err (py_get summary ''needs_review'' (PInt 0)) (\<lambda>nr.
     bind_err (py_get summary ''keep'' (PInt 0)) (\<lambda>ke.
     bind_err (insert_run st clk te rd nr ke current_token next_token) (\<lambda>r.
     bind_err (page_rows analysis (ar_id r) emails) (\<lambda>email_data.
     bind_err (insert_email_rows (next_id (map ea_id (email_analysis st))) email_data) (\<lambda>rows.
     Inr (ar_id r, st\<lparr> analysis_runs := analysis_runs st @ [r],
                        email_analysis := email_analysis st @ rows \<rparr>)))))))))"

text \<open>\<^verbatim>\<open>save_analysis_run\<close>: the same without the page tokens (the columns take their
  defaults: status pending, tokens null).\<close>

definition save_analysis_run :: "store \<Rightarrow> clock \<Rightarrow> email list \<Rightarrow> pyval \<Rightarrow> error + (nat \<times> store)" where
  "save_analysis_run st clk emails analysis =
     bind_err (py_get analysis ''summary'' (PDict [])) (\<lambda>summary.
     bind_err (py_get summary ''total_emails'' (PInt 0)) (\<lambda>te.
     bind_err (py_get summary ''recommended_deletions'' (PInt 0)) (\<lambda>rd.
     bind_err (py_get summary ''needs_review'' (PInt 0)) (\<lambda>nr.
     bind_err (py_get summary ''keep'' (PInt 0)) (\<lambda>ke.
     bind_err (insert_run st clk te rd nr ke None None) (\<lambda>r.
     bind_err (page_rows analysis (ar_id r) emails) (\<lambda>email_data.
     bind_err (insert_email_rows (next_id (map ea_id (email_analysis st))) email_data) (\<lambda>rows.
     Inr (ar_id r, st\<lparr> analysis_runs := analysis_runs st @ [r],
                        email_analysis := email_analysis st @ rows \<rparr>)))))))))"

text \<open>
  \<^verbatim>\<open>ORDER BY created_at DESC LIMIT 1\<close>: a row with the greatest \<^verbatim>\<open>created_at\<close>. SQL
  leaves the choice among rows of equal \<^verbatim>\<open>created_at\<close> open; the model takes the one
  inserted first.
\<close>

fun latest :: "run list \<Rightarrow> run option" where
  "latest [] = None"
| "latest (r # rs) =
     (case latest rs of
        None \<Rightarrow> Some r
      | Some r' \<Rightarrow> if created_at r < created_at r' then Some r' else Some r)"

definition get_pending_run :: "store \<Rightarrow> (run \<times> email_row list) option" where
  "get_pending_run st =
     (case latest (filter (\<lambda>r. status r = Pending) (analysis_runs st)) of
        None \<Rightarrow> None
      | Some r \<Rightarrow> Some (r, filter (\<lambda>e. run_id e = ar_id r) (email_analysis st)))"

definition get_unprocessed_emails_for_run :: "store \<Rightarrow> nat \<Rightarrow> email_row list" where
  "get_unprocessed_emails_for_run st rid =
     filter (\<lambda>e. run_id e = rid \<and> user_decision e = None) (email_analysis st)"

definition get_processed_emails_for_run :: "store \<Rightarrow> nat \<Rightarrow> email_row list" where
  "get_processed_emails_for_run st rid =
     filter (\<lambda>e. run_id e = rid \<and> user_decision e \<noteq> None) (email_analysis st)"

definition get_emails_for_reanalysis :: "store \<Rightarrow> nat \<Rightarrow> email list" where
  "get_emails_for_reanalysis st rid =
     map (\<lambda>e. \<lparr> msg_id = email_id e, msg_subject = subject e, msg_sender = sender e,
                msg_date = date e, msg_snippet = snippet e, msg_is_unread = is_unread e,
                msg_labels = [] \<rparr>)
         (get_unprocessed_emails_for_run st rid)"

text \<open>
  A re-analysed email, as \<^verbatim>\<open>merge_reanalysis_with_new_page\<close> reads it: the dict of an
  email (six keys read with a subscript) that may also carry \<^verbatim>\<open>action\<close>, \<^verbatim>\<open>category\<close>,
  \<^verbatim>\<open>confidence\<close> and \<^verbatim>\<open>reason\<close> (read with \<^verbatim>\<open>.get\<close>).
\<close>

record reanalyzed_email =
  rea_email :: email
  rea_extra :: "(string \<times> pyval) list"

definition rea_get :: "reanalyzed_email \<Rightarrow> string \<Rightarrow> pyval \<Rightarrow> pyval" where
  "rea_get e k d = (case map_of (rea_extra e) k of None \<Rightarrow> d | Some v \<Rightarrow> v)"

definition count_action :: "reanalyzed_email list \<Rightarrow> string \<Rightarrow> int" where
  "count_action es a = int (length (filter (\<lambda>e. rea_get e ''action'' PNone = PStr a) es))"

definition reanalyzed_row :: "nat \<Rightarrow> reanalyzed_email \<Rightarrow> email_row" where
  "reanalyzed_row rid e =
     \<lparr> ea_id = 0, run_id = rid, email_id = msg_id (rea_email e),
       subject = msg_subject (rea_email e), sender = msg_sender (rea_email e),
       date = msg_date (rea_email e), snippet = msg_snippet (rea_email e),
       is_unread = msg_is_unread (rea_email e),
       recommended_action = rea_get e ''action'' (PStr ''review''),
       category = rea_get e ''category'' (PStr ''other''),
       confidence = rea_get e ''confidence'' (PFloat 0.5),
       reason = rea_get e ''reason'' (PStr ''Re-analyzed after crash recovery''),
       user_decision = None, processed_at = None \<rparr>"

definition merge_reanalysis_with_new_page ::
  "store \<Rightarrow> clock \<Rightarrow> reanalyzed_email list \<Rightarrow> pyval \<Rightarrow> email list \<Rightarrow> string option
     \<Rightarrow> string option \<Rightarrow> error + (nat \<times> store)" where
  "merge_reanalysis_with_new_page st clk reanalyzed_emails new_analysis new_emails
       current_token next_token =
     (let reanalyzed_count = int (length reanalyzed_emails);
          new_count = int (length new_emails);
          total_count = reanalyzed_count + new_count
      in
      bind_err (py_get new_analysis ''summary'' (PDict [])) (\<lambda>new_summary.
      bind_err (py_get new_summary ''recommended_deletions'' (PInt 0)) (\<lambda>d.
      bind_err (py_add_int (count_action reanalyzed_emails ''delete'') d) (\<lambda>rd.
      bind_err (py_get new_summary ''needs_review'' (PInt 0)) (\<lambda>n.
      bind_err (py_add_int (count_action reanalyzed_emails ''review'') n) (\<lambda>nr.
      bind_err (py_get new_summary ''keep'' (PInt 0)) (\<lambda>k.
      bind_err (py_add_int (count_action reanalyzed_emails ''keep'') k) (\<lambda>ke.
      bind_err (insert_run st clk (PInt total_count) rd nr ke current_token next_token) (\<lambda>r.
      bind_err (page_rows new_analysis (ar_id r) new_emails) (\<lambda>new_email_data.
      bind_err (insert_email_rows (next_id (map ea_id (email_analysis st)))
                  (map (reanalyzed_row (ar_id r)) reanalyzed_emails @ new_email_data)) (\<lambda>rows.
      Inr (ar_id r, st\<lparr> analysis_runs := analysis_runs st @ [r],
                         email_analysis := email_analysis st @ rows \<rparr>))))))))))))"

definition mark_old_run_superseded :: "store \<Rightarrow> nat \<Rightarrow> store" where
  "mark_old_run_superseded st old_run_id =
     st\<lparr> analysis_runs :=
           map (\<lambda>r. if ar_id r = old_run_id then r\<lparr> status := Superseded \<rparr> else r)
               (analysis_runs st) \<rparr>"

text \<open>
  A decision map is a Python dict from email id to decision; its items are the
  association list, in the dict's order. One \<^verbatim>\<open>UPDATE\<close> per item, with no condition on
  the decision the row already has.
\<close>

definition update_decision :: "clock \<Rightarrow> nat \<Rightarrow> string \<times> string \<Rightarrow> store \<Rightarrow> store" where
  "update_decision clk rid item st =
     st\<lparr> email_analysis :=
           map (\<lambda>e. if run_id e = rid \<and> email_id e = fst item
                     then e\<lparr> user_decision := Some (snd item),
                             processed_at := Some (timestamp clk) \<rparr>
                     else e)
               (email_analysis st) \<rparr>"

definition update_user_decisions :: "store \<Rightarrow> clock \<Rightarrow> nat \<Rightarrow> (string \<times> string) list \<Rightarrow> store" where
  "update_user_decisions st clk rid decisions = fold (update_decision clk rid) decisions st"

definition mark_run_completed :: "store \<Rightarrow> nat \<Rightarrow> store" where
  "mark_run_completed st rid =
     st\<lparr> analysis_runs :=
           map (\<lambda>r. if ar_id r = rid then r\<lparr> status := Completed \<rparr> else r)
               (analysis_runs st) \<rparr>"

fun deleted_rows :: "nat \<Rightarrow> nat \<Rightarrow> (string \<times> string \<times> string) list \<Rightarrow> deleted_row list" where
  "deleted_rows n t [] = []"
| "deleted_rows n t ((i, s, f) # xs) =
     \<lparr> de_id = n, de_email_id = i, de_subject = s, de_sender = f, deleted_at = t,
       can_restore = True \<rparr> # deleted_rows (Suc n) t xs"

definition log_deleted_emails :: "store \<Rightarrow> clock \<Rightarrow> (string \<times> string \<times> string) list \<Rightarrow> store" where
  "log_deleted_emails st clk deleted =
     st\<lparr> deleted_emails :=
           deleted_emails st @
           deleted_rows (next_id (map de_id (deleted_emails st))) (timestamp clk) deleted \<rparr>"

definition get_last_page_token :: "store \<Rightarrow> string option" where
  "get_last_page_token st =
     (case latest (filter (\<lambda>r. status r = Pending \<and> next_page_token r \<noteq> None)
                          (analysis_runs st)) of
        None \<Rightarrow> None
      | Some r \<Rightarrow> next_page_token r)"

section \<open>The mailbox client (src/gmail_client.py)\<close>

text \<open>
  The Gmail service is outside the program. Its three calls are parameters: each
  returns \<open>None\<close> (or \<open>False\<close>) where the call raises.
\<close>

record list_response =
  messages :: "string list"
  nextPageToken :: "string option"

record gmail =
  service_ready :: bool
  messages_list :: "string option \<Rightarrow> nat \<Rightarrow> int \<Rightarrow> list_response option"
  messages_get :: "string \<Rightarrow> email option"
  messages_trash :: "string \<Rightarrow> bool"

record page_result =
  emails :: "email list"
  page_next_token :: "string option"
  has_more :: bool

definition get_email_details :: "gmail \<Rightarrow> string \<Rightarrow> email option" where
  "get_email_details g message_id = messages_get g message_id"

definition get_email_page :: "gmail \<Rightarrow> string option \<Rightarrow> nat \<Rightarrow> int \<Rightarrow> error + page_result" where
  "get_email_page g page_token page_size days_back =
     (if \<not> service_ready g then Inl ValueError
      else
        (case messages_list g
                (case page_token of None \<Rightarrow> None
                 | Some t \<Rightarrow> if t = [] then None else Some t)
                page_size days_back of
           None \<Rightarrow> Inr \<lparr> emails = [], page_next_token = None, has_more = False \<rparr>
         | Some results \<Rightarrow>
             Inr \<lparr> emails = List.map_filter (get_email_details g) (messages results),
                   page_next_token = nextPageToken results,
                   has_more = (nextPageToken results \<noteq> None) \<rparr>))"

text \<open>\<^verbatim>\<open>delete_emails\<close> trashes the ids in turn and reports \<^verbatim>\<open>False\<close> as soon as one call
  raises.\<close>

definition delete_emails :: "gmail \<Rightarrow> string list \<Rightarrow> error + bool" where
  "delete_emails g message_ids =
     (if \<not> service_ready g then Inl ValueError
      else Inr (list_all (messages_trash g) message_ids))"

section \<open>The recommendation engine (src/groq_analyzer.py)\<close>

text \<open>
  What the chat completion gives: the call raises, or its text is not JSON (this also
  stands for a completion without text: both end in \<^verbatim>\<open>_parse_analysis_response\<close>
  returning \<^verbatim>\<open>None\<close>), or \<^verbatim>\<open>json.loads\<close> of the text, code fences stripped, gives a
  value.
\<close>

datatype completion = ApiError | NotJson | Json pyval

record rules =
  protected_senders :: "string list option"
  auto_delete_patterns :: "string list option"

definition parse_analysis_response :: "completion \<Rightarrow> pyval option" where
  "parse_analysis_response c =
     (case c of
        Json analysis \<Rightarrow>
          (case py_in ''analysis'' analysis of
             Inl e \<Rightarrow> None
           | Inr has_analysis \<Rightarrow>
               if \<not> has_analysis then None
               else (case py_in ''summary'' analysis of
                       Inl e \<Rightarrow> None
                     | Inr has_summary \<Rightarrow> if \<not> has_summary then None else Some analysis))
      | _ \<Rightarrow> None)"

definition fallback_entry :: pyval where
  "fallback_entry =
     PDict [(''action'', PStr ''review''), (''category'', PStr ''other''),
            (''confidence'', PFloat 0.5),
            (''reason'', PStr ''Fallback - requires manual review'')]"

definition create_fallback_analysis :: "email list \<Rightarrow> pyval" where
  "create_fallback_analysis es =
     PDict [(''analysis'',
               PDict (fold (\<lambda>e d. AList.update (msg_id e) fallback_entry d) es [])),
            (''summary'',
               PDict [(''total_emails'', PInt (int (length es))),
                      (''recommended_deletions'', PInt 0),
                      (''needs_review'', PInt (int (length es))),
                      (''keep'', PInt 0)])]"

text \<open>The summaries the prompt is made of: the first 30 emails, snippets cut at 150
  characters, labels left out.\<close>

definition email_summary :: "email \<Rightarrow> email" where
  "email_summary e = e\<lparr> msg_snippet := take 150 (msg_snippet e), msg_labels := [] \<rparr>"

definition analyze_emails :: "(email list \<Rightarrow> rules \<Rightarrow> completion) \<Rightarrow> email list \<Rightarrow> rules \<Rightarrow> pyval option" where
  "analyze_emails groq es deletion_rules =
     (case groq (map email_summary (take 30 es)) deletion_rules of
        ApiError \<Rightarrow> Some (create_fallback_analysis es)
      | c \<Rightarrow> parse_analysis_response c)"

text \<open>
  \<^verbatim>\<open>generate_daily_summary\<close>: the emails sorted by the action of their entry (an email
  without a truthy entry is in none of the three lists), then the report text, which
  reads the four counts of the summary and the \<^verbatim>\<open>reason\<close> of the first ten emails to
  delete and of the first five to review. Of the text the model keeps the reasons it
  quotes.
\<close>

record daily_summary =
  text_reasons :: "pyval list"
  sum_delete_emails :: "(email \<times> pyval) list"
  sum_review_emails :: "(email \<times> pyval) list"
  sum_keep_emails :: "(email \<times> pyval) list"

fun sort_by_action ::
  "pyval \<Rightarrow> email list
     \<Rightarrow> error + ((email \<times> pyval) list \<times> (email \<times> pyval) list \<times> (email \<times> pyval) list)" where
  "sort_by_action analysis [] = Inr ([], [], [])"
| "sort_by_action analysis (e # es) =
     bind_err (py_index analysis ''analysis'') (\<lambda>amap.
     bind_err (py_get amap (msg_id e) PNone) (\<lambda>email_analysis.
     if py_truthy email_analysis then
       bind_err (py_index email_analysis ''action'') (\<lambda>a.
       bind_err (sort_by_action analysis es) (\<lambda>(ds, rs, ks).
         if a = PStr ''delete'' then Inr ((e, email_analysis) # ds, rs, ks)
         else if a = PStr ''review'' then Inr (ds, (e, email_analysis) # rs, ks)
         else Inr (ds, rs, (e, email_analysis) # ks)))
     else sort_by_action analysis es))"

fun quoted_reasons :: "(email \<times> pyval) list \<Rightarrow> error + pyval list" where
  "quoted_reasons [] = Inr []"
| "quoted_reasons ((e, analysis_data) # xs) =
     bind_err (py_index analysis_data ''reason'') (\<lambda>r.
     bind_err (quoted_reasons xs) (\<lambda>rs. Inr (r # rs)))"

definition generate_daily_summary :: "email list \<Rightarrow> pyval \<Rightarrow> error + daily_summary" where
  "generate_daily_summary es analysis =
     bind_err (py_get analysis ''summary'' (PDict [])) (\<lambda>summary.
     bind_err (sort_by_action analysis es) (\<lambda>(ds, rs, ks).
     bind_err (py_get summary ''total_emails'' (PInt 0)) (\<lambda>te.
     bind_err (py_get summary ''recommended_deletions'' (PInt 0)) (\<lambda>rd.
     bind_err (py_get summary ''needs_review'' (PInt 0)) (\<lambda>nr.
     bind_err (py_get summary ''keep'' (PInt 0)) (\<lambda>ke.
     bind_err (quoted_reasons (take 10 ds)) (\<lambda>dr.
     bind_err (quoted_reasons (take 5 rs)) (\<lambda>rr.
     Inr \<lparr> text_reasons = dr @ rr, sum_delete_emails = ds, sum_review_emails = rs,
           sum_keep_emails = ks \<rparr>))))))))"

section \<open>The controller (src/email_processor.py)\<close>

text \<open>The keys of \<^verbatim>\<open>config.yaml\<close> the controller reads; \<open>None\<close> is a missing key.\<close>

record config =
  pagination_page_size :: "nat option"
  gmail_days_to_analyze :: "int option"
  deletion_rules :: "rules option"

definition sender_is_protected :: "config \<Rightarrow> string \<Rightarrow> bool" where
  "sender_is_protected cfg s =
     list_ex (\<lambda>protected. str_contains s protected)
       (case deletion_rules cfg of
          None \<Rightarrow> []
        | Some r \<Rightarrow> (case protected_senders r of None \<Rightarrow> [] | Some ps \<Rightarrow> ps))"

definition apply_preprocessing_filters :: "config \<Rightarrow> email list \<Rightarrow> email list" where
  "apply_preprocessing_filters cfg es =
     filter (\<lambda>e. \<not> sender_is_protected cfg (msg_sender e)) es"

text \<open>What \<^verbatim>\<open>run_paginated_analysis\<close> returns when it does not return \<^verbatim>\<open>None\<close>.\<close>

record page_summary =
  res_run_id :: nat
  res_emails :: "email list"
  res_analysis :: pyval
  res_summary :: daily_summary
  res_has_more_pages :: bool
  res_next_page_token :: "string option"
  res_page_info :: nat

text \<open>
  \<^verbatim>\<open>run_paginated_analysis\<close>. The whole body is in one \<^verbatim>\<open>try\<close>: every exception, like
  every early exit, makes it return \<^verbatim>\<open>None\<close>. The result is paired with the store the
  call leaves behind.
\<close>

definition page_size_of :: "config \<Rightarrow> nat" where
  "page_size_of cfg = (case pagination_page_size cfg of None \<Rightarrow> 50 | Some n \<Rightarrow> n)"

definition run_paginated_analysis ::
  "config \<Rightarrow> gmail \<Rightarrow> (email list \<Rightarrow> rules \<Rightarrow> completion) \<Rightarrow> clock \<Rightarrow> store \<Rightarrow> string option
     \<Rightarrow> page_summary option \<times> store" where
  "run_paginated_analysis cfg g groq clk st page_token =
     (let page_size = page_size_of cfg in
      case gmail_days_to_analyze cfg of
        None \<Rightarrow> (None, st)
      | Some days \<Rightarrow>
     (case get_email_page g page_token page_size days of
        Inl e \<Rightarrow> (None, st)
      | Inr page_result \<Rightarrow>
          if emails page_result = [] then (None, st)
          else
            let filtered_emails = apply_preprocessing_filters cfg (emails page_result) in
            if filtered_emails = [] then (None, st)
            else
              (case deletion_rules cfg of
                 None \<Rightarrow> (None, st)
               | Some rs \<Rightarrow>
              (case analyze_emails groq filtered_emails rs of
                 None \<Rightarrow> (None, st)
               | Some analysis \<Rightarrow>
                   if \<not> py_truthy analysis then (None, st)
                   else
                     (case save_page_analysis st clk filtered_emails analysis page_token
                             (page_next_token page_result) of
                        Inl e \<Rightarrow> (None, st)
                      | Inr (rid, st') \<Rightarrow>
                          (case generate_daily_summary filtered_emails analysis of
                             Inl e \<Rightarrow> (None, st')
                           | Inr summary \<Rightarrow>
                               (Some \<lparr> res_run_id = rid, res_emails = filtered_emails,
                                       res_analysis = analysis, res_summary = summary,
                                       res_has_more_pages = has_more page_result,
                                       res_next_page_token = page_next_token page_result,
                                       res_page_info = length filtered_emails \<rparr>,
                                st')))))))"

definition continue_from_last_page ::
  "config \<Rightarrow> gmail \<Rightarrow> (email list \<Rightarrow> rules \<Rightarrow> completion) \<Rightarrow> clock \<Rightarrow> store
     \<Rightarrow> page_summary option \<times> store" where
  "continue_from_last_page cfg g groq clk st =
     (case get_last_page_token st of
        None \<Rightarrow> run_paginated_analysis cfg g groq clk st None
      | Some last_token \<Rightarrow>
          if last_token \<noteq> [] then run_paginated_analysis cfg g groq clk st (Some last_token)
          else run_paginated_analysis cfg g groq clk st None)"

text \<open>
  \<^verbatim>\<open>execute_user_decisions\<close>. \<^verbatim>\<open>decisions.get(email_id)\<close> is \<^const>\<open>map_of\<close> on the items
  (the keys of a dict are distinct). The loop over the rows of the pending run collects
  the rows decided \<^verbatim>\<open>'delete'\<close>; the mailbox is asked only when there is one.
\<close>

definition chosen_for_deletion :: "(string \<times> string) list \<Rightarrow> email_row list \<Rightarrow> email_row list" where
  "chosen_for_deletion decisions rows =
     filter (\<lambda>e. map_of decisions (email_id e) = Some ''delete'') rows"

definition finish_decisions :: "store \<Rightarrow> clock \<Rightarrow> nat \<Rightarrow> (string \<times> string) list \<Rightarrow> bool \<times> store" where
  "finish_decisions st clk rid decisions =
     (True, mark_run_completed (update_user_decisions st clk rid decisions) rid)"

definition execute_user_decisions ::
  "gmail \<Rightarrow> clock \<Rightarrow> store \<Rightarrow> nat \<Rightarrow> (string \<times> string) list \<Rightarrow> bool \<times> store" where
  "execute_user_decisions g clk st rid decisions =
     (case get_pending_run st of
        None \<Rightarrow> (False, st)
      | Some (pending, rows) \<Rightarrow>
          if ar_id pending \<noteq> rid then (False, st)
          else
            let chosen = chosen_for_deletion decisions rows;
                emails_to_delete = map email_id chosen;
                deleted_email_info = map (\<lambda>e. (email_id e, subject e, sender e)) chosen
            in
            if emails_to_delete \<noteq> [] then
              (case delete_emails g emails_to_delete of
                 Inl e \<Rightarrow> (False, st)
               | Inr success \<Rightarrow>
                   if success
                   then finish_decisions (log_deleted_emails st clk deleted_email_info)
                          clk rid decisions
                   else (False, st))
            else finish_decisions st clk rid decisions)"

section \<open>A sample mailbox\<close>

text \<open>
  Concrete data for the instances below: a mailbox of two pages (\<open>e1\<close>, \<open>e2\<close>, \<open>e3\<close>,
  then, under the token \<open>abc\<close>, \<open>e4\<close>), a configuration that protects the senders at
  \<open>@corp.com\<close> (the sender of \<open>e3\<close>), and an engine whose answer leaves \<open>e2\<close> out.
\<close>

definition ex_mail :: "string \<Rightarrow> string \<Rightarrow> email" where
  "ex_mail i f =
     \<lparr> msg_id = i, msg_subject = ''Hello'', msg_sender = f, msg_date = ''1 Jan 2024'',
       msg_snippet = ''hi'', msg_is_unread = True, msg_labels = [''INBOX''] \<rparr>"

definition ex_gmail :: gmail where
  "ex_gmail =
     \<lparr> service_ready = True,
       messages_list = (\<lambda>tok n d.
          case tok of
            None \<Rightarrow> Some \<lparr> messages = [''e1'', ''e2'', ''e3''], nextPageToken = Some ''abc'' \<rparr>
          | Some t \<Rightarrow>
              if t = ''abc'' then Some \<lparr> messages = [''e4''], nextPageToken = None \<rparr>
              else None),
       messages_get = map_of
          [(''e1'', ex_mail ''e1'' ''alice@example.com''),
           (''e2'', ex_mail ''e2'' ''news@shop.com''),
           (''e3'', ex_mail ''e3'' ''boss@corp.com''),
           (''e4'', ex_mail ''e4'' ''bob@example.com'')],
       messages_trash = (\<lambda>i. True) \<rparr>"

definition ex_rules :: rules where
  "ex_rules = \<lparr> protected_senders = Some [''@corp.com''], auto_delete_patterns = Some [] \<rparr>"

definition ex_config :: config where
  "ex_config =
     \<lparr> pagination_page_size = None, gmail_days_to_analyze = Some 30,
       deletion_rules = Some ex_rules \<rparr>"

definition ex_entry :: "string \<Rightarrow> pyval" where
  "ex_entry a =
     PDict [(''action'', PStr a), (''category'', PStr ''promotional''),
            (''confidence'', PFloat 0.9), (''reason'', PStr ''ad'')]"

definition ex_analysis :: pyval where
  "ex_analysis =
     PDict [(''analysis'', PDict [(''e1'', ex_entry ''delete''), (''e4'', ex_entry ''keep'')]),
            (''summary'', PDict [(''total_emails'', PInt 2), (''recommended_deletions'', PInt 1),
                                 (''needs_review'', PInt 0), (''keep'', PInt 1)])]"

definition ex_groq :: "email list \<Rightarrow> rules \<Rightarrow> completion" where
  "ex_groq batch rs = Json ex_analysis"

definition ex_clock :: "nat \<Rightarrow> clock" where
  "ex_clock t = \<lparr> today = ''2024-01-01'', timestamp = t \<rparr>"

definition empty_store :: store where
  "empty_store = \<lparr> analysis_runs = [], email_analysis = [], deleted_emails = [] \<rparr>"

text \<open>The store after the first page has been processed: run 1, pending, with \<open>e1\<close> and
  \<open>e2\<close> undecided and the next-page token \<open>abc\<close>.\<close>

definition ex_row :: "nat \<Rightarrow> nat \<Rightarrow> string \<Rightarrow> string \<Rightarrow> pyval \<Rightarrow> pyval \<Rightarrow> pyval \<Rightarrow> pyval \<Rightarrow> email_row" where
  "ex_row n rid i f a c cf rs =
     \<lparr> ea_id = n, run_id = rid, email_id = i, subject = ''Hello'', sender = f,
       date = ''1 Jan 2024'', snippet = ''hi'', is_unread = True, recommended_action = a,
       category = c, confidence = cf, reason = rs, user_decision = None,
       processed_at = None \<rparr>"

definition ex_run :: "nat \<Rightarrow> nat \<Rightarrow> string option \<Rightarrow> string option \<Rightarrow> run" where
  "ex_run n t cur nxt =
     \<lparr> ar_id = n, run_date = ''2024-01-01'', total_emails = PInt 2,
       recommended_deletions = PInt 1, needs_review = PInt 0, keep_emails = PInt 1,
       status = Pending, current_page_token = cur, next_page_token = nxt, created_at = t \<rparr>"

definition ex_store1 :: store where
  "ex_store1 =
     \<lparr> analysis_runs = [ex_run 1 100 None (Some ''abc'')],
       email_analysis =
         [ex_row 1 1 ''e1'' ''alice@example.com'' (PStr ''delete'') (PStr ''promotional'')
            (PFloat 0.9) (PStr ''ad''),
          ex_row 2 1 ''e2'' ''news@shop.com'' (PStr ''review'') (PStr ''other'')
            (PFloat 0.5) (PStr ''No analysis available'')],
       deleted_emails = [] \<rparr>"

text \<open>The same mailbox when every call to trash a message raises.\<close>

definition ex_gmail_failing :: gmail where
  "ex_gmail_failing = ex_gmail\<lparr> messages_trash := (\<lambda>i. False) \<rparr>"

text \<open>The same mailbox when the listing has no message.\<close>

definition ex_gmail_empty :: gmail where
  "ex_gmail_empty =
     ex_gmail\<lparr> messages_list := (\<lambda>tok n d. Some \<lparr> messages = [], nextPageToken = None \<rparr>) \<rparr>"

section \<open>Relations used in the statements\<close>

text \<open>The page token \<^verbatim>\<open>continue_from_last_page\<close> passes on: the last token when it is
  truthy, no token otherwise.\<close>

definition resume_token :: "store \<Rightarrow> string option" where
  "resume_token st =
     (case get_last_page_token st of
        None \<Rightarrow> None
      | Some last_token \<Rightarrow> if last_token \<noteq> [] then Some last_token else None)"


text \<open>Binding keeps a row but for the four bound columns; the insert only numbers it.\<close>

definition same_email :: "email_row \<Rightarrow> email_row \<Rightarrow> bool" where
  "same_email r r' \<longleftrightarrow>
     run_id r' = run_id r \<and> email_id r' = email_id r \<and> subject r' = subject r
     \<and> sender r' = sender r \<and> user_decision r' = user_decision r
     \<and> bind_param (recommended_action r) = Inr (recommended_action r')
     \<and> bind_param (category r) = Inr (category r')
     \<and> bind_param (confidence r) = Inr (confidence r')
     \<and> bind_param (reason r) = Inr (reason r')"

section \<open>Auxiliary facts\<close>

lemma bind_err_simps [simp]: "bind_err (Inl e) f = Inl e" "bind_err (Inr x) f = f x"
  by (simp_all add: bind_err_def)

lemma bind_err_Inr_iff: "bind_err m f = Inr y \<longleftrightarrow> (\<exists>x. m = Inr x \<and> f x = Inr y)"
  by (cases m) simp_all

lemmas ex_defs = ex_mail_def ex_gmail_def ex_rules_def ex_config_def ex_entry_def ex_analysis_def
  ex_groq_def ex_clock_def empty_store_def ex_row_def ex_run_def ex_store1_def

lemmas op_defs = run_paginated_analysis_def continue_from_last_page_def get_email_page_def
  get_email_details_def page_size_of_def apply_preprocessing_filters_def sender_is_protected_def
  analyze_emails_def parse_analysis_response_def save_page_analysis_def insert_run_def
  page_row_def bind_row_def generate_daily_summary_def next_id_def email_summary_def
  List.map_filter_def get_last_page_token_def

lemma page_row_fields:
  assumes "page_row analysis rid e = Inr r"
  shows "run_id r = rid \<and> email_id r = msg_id e \<and> subject r = msg_subject e
       \<and> sender r = msg_sender e \<and> user_decision r = None"
  using assms by (auto simp: page_row_def bind_err_Inr_iff)

lemma page_row_default:
  assumes "page_row analysis rid e = Inr r"
      and "py_index analysis ''analysis'' = Inr (PDict amap)"
      and "msg_id e \<notin> fst ` set amap"
  shows "recommended_action r = PStr ''review'' \<and> category r = PStr ''other''
       \<and> confidence r = PFloat 0.5 \<and> reason r = PStr ''No analysis available''"
proof -
  from assms(3) have "map_of amap (msg_id e) = None" by (simp add: map_of_eq_None_iff)
  with assms(1,2) show ?thesis
    by (auto simp: page_row_def bind_err_Inr_iff)
qed

lemma page_rows_all2:
  "page_rows analysis rid es = Inr rs \<Longrightarrow>
   list_all2 (\<lambda>e r. page_row analysis rid e = Inr r) es rs"
  by (induction es arbitrary: rs) (auto simp: bind_err_Inr_iff)

lemma insert_email_rows_all2:
  "insert_email_rows n rs = Inr rs' \<Longrightarrow> list_all2 same_email rs rs'"
  by (induction rs arbitrary: n rs')
     (auto simp: bind_err_Inr_iff bind_row_def same_email_def)

text \<open>What a successful save leaves behind.\<close>

lemma save_page_analysis_shape:
  assumes "save_page_analysis st clk es analysis ct nt = Inr (rid, st')"
  shows "\<exists>r data rows.
           analysis_runs st' = analysis_runs st @ [r] \<and> ar_id r = rid \<and> status r = Pending
         \<and> current_page_token r = ct \<and> next_page_token r = nt
         \<and> email_analysis st' = email_analysis st @ rows
         \<and> deleted_emails st' = deleted_emails st
         \<and> list_all2 (\<lambda>e d. page_row analysis rid e = Inr d) es data
         \<and> list_all2 same_email data rows"
  using assms
  by (auto simp: save_page_analysis_def insert_run_def bind_err_Inr_iff
           dest!: page_rows_all2 insert_email_rows_all2)

lemma save_analysis_run_shape:
  assumes "save_analysis_run st clk es analysis = Inr (rid, st')"
  shows "\<exists>r data rows.
           analysis_runs st' = analysis_runs st @ [r] \<and> ar_id r = rid \<and> status r = Pending
         \<and> current_page_token r = None \<and> next_page_token r = None
         \<and> email_analysis st' = email_analysis st @ rows
         \<and> deleted_emails st' = deleted_emails st
         \<and> list_all2 (\<lambda>e d. page_row analysis rid e = Inr d) es data
         \<and> list_all2 same_email data rows"
  using assms
  by (auto simp: save_analysis_run_def insert_run_def bind_err_Inr_iff
           dest!: page_rows_all2 insert_email_rows_all2)

lemma default_rows:
  assumes d: "list_all2 (\<lambda>e d. page_row analysis rid e = Inr d) es data"
      and r: "list_all2 same_email data rows"
      and a: "py_index analysis ''analysis'' = Inr (PDict amap)"
  shows "map email_id rows = map msg_id es
       \<and> (\<forall>r\<in>set rows. run_id r = rid \<and> user_decision r = None
            \<and> (email_id r \<notin> fst ` set amap \<longrightarrow>
                 recommended_action r = PStr ''review'' \<and> category r = PStr ''other''
               \<and> confidence r = PFloat 0.5 \<and> reason r = PStr ''No analysis available''))"
proof -
  have len: "length data = length es" "length rows = length es"
    using list_all2_lengthD[OF d] list_all2_lengthD[OF r] by simp_all
  have at: "\<And>i. i < length es \<Longrightarrow> page_row analysis rid (es ! i) = Inr (data ! i)
                                \<and> same_email (data ! i) (rows ! i)"
    using d r len by (auto dest: list_all2_nthD list_all2_nthD2)
  have ids: "map email_id rows = map msg_id es"
  proof (rule nth_equalityI)
    show "length (map email_id rows) = length (map msg_id es)" using len by simp
  next
    fix i assume "i < length (map email_id rows)"
    then have i: "i < length es" using len by simp
    from at[OF i] show "map email_id rows ! i = map msg_id es ! i"
      using i len by (auto simp: same_email_def dest: page_row_fields)
  qed
  have each: "run_id x = rid \<and> user_decision x = None
            \<and> (email_id x \<notin> fst ` set amap \<longrightarrow>
                 recommended_action x = PStr ''review'' \<and> category x = PStr ''other''
               \<and> confidence x = PFloat 0.5 \<and> reason x = PStr ''No analysis available'')"
    if "x \<in> set rows" for x
  proof -
    from that obtain i where i: "i < length es" and x: "x = rows ! i"
      using len by (auto simp: in_set_conv_nth)
    from at[OF i] have p: "page_row analysis rid (es ! i) = Inr (data ! i)"
      and s: "same_email (data ! i) x" using x by auto
    from page_row_fields[OF p] s have f: "run_id x = rid" "user_decision x = None"
      "email_id x = msg_id (es ! i)" by (auto simp: same_email_def)
    show ?thesis
    proof (intro conjI impI)
      assume "email_id x \<notin> fst ` set amap"
      then have "msg_id (es ! i) \<notin> fst ` set amap" using f by simp
      from page_row_default[OF p a this] s
      show "recommended_action x = PStr ''review''" "category x = PStr ''other''"
        "confidence x = PFloat 0.5" "reason x = PStr ''No analysis available''"
        by (auto simp: same_email_def)
    qed (use f in auto)
  qed
  from ids each show ?thesis by blast
qed

section \<open>Default recommendation\<close>

text \<open>
  Claim C6. An email that \<^verbatim>\<open>save_page_analysis\<close> (or \<^verbatim>\<open>save_analysis_run\<close>) persists and
  whose id is not a key of the analysis map gets a row with recommended action
  \<^verbatim>\<open>review\<close>, category \<^verbatim>\<open>other\<close>, confidence 0.5 and the reason \<^verbatim>\<open>No analysis available\<close>;
  in particular its recommendation is not \<^verbatim>\<open>delete\<close>. Every email of the page gets one
  row, in order, in the new run.
\<close>

theorem missing_analysis_is_review:
  assumes "save_page_analysis st clk es analysis ct nt = Inr (rid, st')
         \<or> save_analysis_run st clk es analysis = Inr (rid, st')"
      and "py_index analysis ''analysis'' = Inr (PDict amap)"
  shows "\<exists>rows. email_analysis st' = email_analysis st @ rows
          \<and> map email_id rows = map msg_id es
          \<and> (\<forall>r\<in>set rows. run_id r = rid
               \<and> (email_id r \<notin> fst ` set amap \<longrightarrow>
                    recommended_action r = PStr ''review'' \<and> category r = PStr ''other''
                  \<and> confidence r = PFloat 0.5 \<and> reason r = PStr ''No analysis available''
                  \<and> recommended_action r \<noteq> PStr ''delete''))"
proof -
  from assms(1) obtain data rows where
    "email_analysis st' = email_analysis st @ rows"
    "list_all2 (\<lambda>e d. page_row analysis rid e = Inr d) es data"
    "list_all2 same_email data rows"
    using save_page_analysis_shape save_analysis_run_shape by blast
  with default_rows[OF this(2,3) assms(2)] show ?thesis by auto
qed

theorem missing_analysis_is_review_witness:
  "save_page_analysis empty_store (ex_clock 100)
       [ex_mail ''e1'' ''alice@example.com'', ex_mail ''e2'' ''news@shop.com'']
       ex_analysis None (Some ''abc'') = Inr (1, ex_store1)
   \<and> py_index ex_analysis ''analysis''
       = Inr (PDict [(''e1'', ex_entry ''delete''), (''e4'', ex_entry ''keep'')])
   \<and> (\<exists>rows. email_analysis ex_store1 = email_analysis empty_store @ rows
          \<and> map email_id rows = [''e1'', ''e2'']
          \<and> (\<forall>r\<in>set rows. run_id r = 1
               \<and> (email_id r \<notin> {''e1'', ''e4''} \<longrightarrow>
                    recommended_action r = PStr ''review'' \<and> category r = PStr ''other''
                  \<and> confidence r = PFloat 0.5 \<and> reason r = PStr ''No analysis available''
                  \<and> recommended_action r \<noteq> PStr ''delete'')))"
proof -
  have s: "save_page_analysis empty_store (ex_clock 100)
       [ex_mail ''e1'' ''alice@example.com'', ex_mail ''e2'' ''news@shop.com'']
       ex_analysis None (Some ''abc'') = Inr (1, ex_store1)"
    by (simp add: ex_defs op_defs)
  have a: "py_index ex_analysis ''analysis''
       = Inr (PDict [(''e1'', ex_entry ''delete''), (''e4'', ex_entry ''keep'')])"
    by (simp add: ex_analysis_def)
  from missing_analysis_is_review[OF disjI1[OF s] a] s a show ?thesis
    by (simp add: ex_mail_def)
qed

section \<open>Applying decisions\<close>

lemma update_user_decisions_other [simp]:
  "analysis_runs (update_user_decisions st clk rid ds) = analysis_runs st"
  "deleted_emails (update_user_decisions st clk rid ds) = deleted_emails st"
  unfolding update_user_decisions_def
  by (induction ds arbitrary: st) (simp_all add: update_decision_def)

lemma update_decision_rows:
  "email_analysis (update_decision clk rid d s) =
     map (\<lambda>e. if run_id e = rid \<and> email_id e = fst d
               then e\<lparr> user_decision := Some (snd d), processed_at := Some (timestamp clk) \<rparr>
               else e)
         (email_analysis s)"
  by (simp add: update_decision_def)

lemma update_user_decisions_rev:
  "email_analysis (update_user_decisions st clk rid ds) =
     map (\<lambda>e. if run_id e = rid
               then (case map_of (rev ds) (email_id e) of
                       None \<Rightarrow> e
                     | Some d \<Rightarrow> e\<lparr> user_decision := Some d,
                                    processed_at := Some (timestamp clk) \<rparr>)
               else e)
         (email_analysis st)"
proof (induction ds rule: rev_induct)
  case Nil
  show ?case by (simp add: update_user_decisions_def map_idI)
next
  case (snoc d ds)
  have "update_user_decisions st clk rid (ds @ [d]) =
          update_decision clk rid d (update_user_decisions st clk rid ds)"
    by (simp add: update_user_decisions_def)
  then show ?case
    by (simp add: update_decision_rows snoc) (auto split: option.splits)
qed

lemma map_of_rev_distinct:
  assumes "distinct (map fst ds)"
  shows "map_of (rev ds) = map_of ds"
proof -
  have "distinct (map fst (rev ds))" using assms by (simp add: rev_map[symmetric])
  then show ?thesis using assms by (simp add: map_of_inject_set)
qed

lemma update_user_decisions_rows:
  assumes "distinct (map fst ds)"
  shows "email_analysis (update_user_decisions st clk rid ds) =
     map (\<lambda>e. if run_id e = rid
               then (case map_of ds (email_id e) of
                       None \<Rightarrow> e
                     | Some d \<Rightarrow> e\<lparr> user_decision := Some d,
                                    processed_at := Some (timestamp clk) \<rparr>)
               else e)
         (email_analysis st)"
  by (simp add: update_user_decisions_rev map_of_rev_distinct[OF assms])

lemma update_user_decisions_untouched:
  assumes "i < length (email_analysis st)"
      and "email_id (email_analysis st ! i) \<notin> fst ` set ds"
  shows "email_analysis (update_user_decisions st clk rid ds) ! i = email_analysis st ! i"
proof -
  from assms(2) have "map_of (rev ds) (email_id (email_analysis st ! i)) = None"
    by (simp add: map_of_eq_None_iff)
  with assms(1) show ?thesis by (simp add: update_user_decisions_rev)
qed

lemma latest_in_set: "latest rs = Some r \<Longrightarrow> r \<in> set rs"
  by (induction rs arbitrary: r) (auto split: option.splits if_splits)

lemma get_pending_run_in_set:
  "get_pending_run st = Some (p, rows) \<Longrightarrow> p \<in> set (analysis_runs st) \<and> status p = Pending"
  by (auto simp: get_pending_run_def split: option.splits dest!: latest_in_set)

lemmas ex_eval = get_pending_run_def execute_user_decisions_def chosen_for_deletion_def
  finish_decisions_def delete_emails_def log_deleted_emails_def update_user_decisions_def
  update_decision_def mark_run_completed_def

text \<open>
  Claim C5. A call of \<^verbatim>\<open>execute_user_decisions\<close> with a run id that is not the id of
  the most recent pending run (or when no run is pending) returns \<^verbatim>\<open>False\<close> and leaves
  the whole store as it was.
\<close>

theorem run_id_mismatch_leaves_store:
  assumes "map_option (\<lambda>p. ar_id (fst p)) (get_pending_run st) \<noteq> Some rid"
  shows "execute_user_decisions g clk st rid decisions = (False, st)"
  using assms by (auto simp: execute_user_decisions_def split: option.splits)

theorem run_id_mismatch_leaves_store_witness:
  "map_option (\<lambda>p. ar_id (fst p)) (get_pending_run ex_store1) \<noteq> Some 2
   \<and> execute_user_decisions ex_gmail (ex_clock 200) ex_store1 2 [(''e1'', ''delete'')]
       = (False, ex_store1)"
proof -
  have h: "map_option (\<lambda>p. ar_id (fst p)) (get_pending_run ex_store1) \<noteq> Some 2"
    by (simp add: get_pending_run_def ex_defs)
  from run_id_mismatch_leaves_store[OF h] h show ?thesis by simp
qed

lemma log_deleted_emails_other [simp]:
  "analysis_runs (log_deleted_emails st clk ds) = analysis_runs st"
  "email_analysis (log_deleted_emails st clk ds) = email_analysis st"
  by (simp_all add: log_deleted_emails_def)

lemma mark_run_completed_other [simp]:
  "email_analysis (mark_run_completed st rid) = email_analysis st"
  "deleted_emails (mark_run_completed st rid) = deleted_emails st"
  by (simp_all add: mark_run_completed_def)

lemma mark_old_run_superseded_other [simp]:
  "email_analysis (mark_old_run_superseded st rid) = email_analysis st"
  "deleted_emails (mark_old_run_superseded st rid) = deleted_emails st"
  by (simp_all add: mark_old_run_superseded_def)

lemma mark_run_completed_runs:
  "analysis_runs (mark_run_completed st rid) =
     map (\<lambda>r. if ar_id r = rid then r\<lparr> status := Completed \<rparr> else r) (analysis_runs st)"
  by (simp add: mark_run_completed_def)

lemma mark_run_completed_status:
  assumes "r \<in> set (analysis_runs (mark_run_completed st rid))" and "ar_id r = rid"
  shows "status r = Completed"
proof -
  from assms(1) have "r \<in> (\<lambda>x. if ar_id x = rid then x\<lparr> status := Completed \<rparr> else x)
                            ` set (analysis_runs st)"
    unfolding mark_run_completed_runs set_map .
  then obtain x where
    r: "r = (if ar_id x = rid then x\<lparr> status := Completed \<rparr> else x)"
    by (rule imageE)
  show ?thesis
  proof (cases "ar_id x = rid")
    case True
    with r show ?thesis by simp
  next
    case False
    with r assms(2) show ?thesis by simp
  qed
qed

text \<open>The three ways \<^verbatim>\<open>execute_user_decisions\<close> ends once the run id matches.\<close>

lemma execute_user_decisions_matching:
  assumes "get_pending_run st = Some (pending, rows)" and "ar_id pending = rid"
  shows "execute_user_decisions g clk st rid decisions =
     (if chosen_for_deletion decisions rows = []
      then (True, mark_run_completed (update_user_decisions st clk rid decisions) rid)
      else if delete_emails g (map email_id (chosen_for_deletion decisions rows)) = Inr True
      then (True, mark_run_completed
                    (update_user_decisions
                       (log_deleted_emails st clk
                          (map (\<lambda>e. (email_id e, subject e, sender e))
                               (chosen_for_deletion decisions rows)))
                       clk rid decisions) rid)
      else (False, st))"
  using assms
  by (auto simp: execute_user_decisions_def finish_decisions_def Let_def split: sum.splits)

lemma execute_user_decisions_True:
  assumes "execute_user_decisions g clk st rid decisions = (True, st')"
  shows "\<exists>pending rows s. get_pending_run st = Some (pending, rows) \<and> ar_id pending = rid
           \<and> email_analysis s = email_analysis st \<and> analysis_runs s = analysis_runs st
           \<and> st' = mark_run_completed (update_user_decisions s clk rid decisions) rid"
proof (cases "get_pending_run st")
  case None
  with assms show ?thesis by (simp add: execute_user_decisions_def)
next
  case (Some pr)
  obtain pending rows where pr: "pr = (pending, rows)" by (cases pr)
  show ?thesis
  proof (cases "ar_id pending = rid")
    case False
    with assms Some pr show ?thesis by (simp add: execute_user_decisions_def)
  next
    case True
    note m = execute_user_decisions_matching[OF Some[unfolded pr] True, of g clk decisions]
    from assms m consider
        "st' = mark_run_completed (update_user_decisions st clk rid decisions) rid"
      | "st' = mark_run_completed
                 (update_user_decisions
                    (log_deleted_emails st clk
                       (map (\<lambda>e. (email_id e, subject e, sender e))
                            (chosen_for_deletion decisions rows)))
                    clk rid decisions) rid"
      by (auto split: if_splits)
    then show ?thesis
    proof cases
      case 1
      with Some pr True show ?thesis by blast
    next
      case 2
      have "email_analysis (log_deleted_emails st clk
               (map (\<lambda>e. (email_id e, subject e, sender e))
                    (chosen_for_deletion decisions rows))) = email_analysis st"
           "analysis_runs (log_deleted_emails st clk
               (map (\<lambda>e. (email_id e, subject e, sender e))
                    (chosen_for_deletion decisions rows))) = analysis_runs st"
        by simp_all
      with 2 Some pr True show ?thesis by blast
    qed
  qed
qed

lemma ex_store1_fields:
  "analysis_runs ex_store1 = [ex_run 1 100 None (Some ''abc'')]"
  "email_analysis ex_store1 =
     [ex_row 1 1 ''e1'' ''alice@example.com'' (PStr ''delete'') (PStr ''promotional'')
        (PFloat 0.9) (PStr ''ad''),
      ex_row 2 1 ''e2'' ''news@shop.com'' (PStr ''review'') (PStr ''other'')
        (PFloat 0.5) (PStr ''No analysis available'')]"
  "deleted_emails ex_store1 = []"
  by (simp_all add: ex_store1_def)

lemma ex_run_fields [simp]:
  "ar_id (ex_run n t c x) = n" "status (ex_run n t c x) = Pending"
  "created_at (ex_run n t c x) = t" "next_page_token (ex_run n t c x) = x"
  "current_page_token (ex_run n t c x) = c"
  by (simp_all add: ex_run_def)

lemma ex_row_fields [simp]:
  "run_id (ex_row n rid i f a c cf rs) = rid" "email_id (ex_row n rid i f a c cf rs) = i"
  "user_decision (ex_row n rid i f a c cf rs) = None"
  "sender (ex_row n rid i f a c cf rs) = f" "subject (ex_row n rid i f a c cf rs) = ''Hello''"
  "ea_id (ex_row n rid i f a c cf rs) = n"
  by (simp_all add: ex_row_def)

lemma ex_pending:
  "get_pending_run ex_store1 = Some (ex_run 1 100 None (Some ''abc''), email_analysis ex_store1)"
  by (simp add: get_pending_run_def ex_store1_fields)

lemma ex_keep_e1:
  "execute_user_decisions g (ex_clock 200) ex_store1 1 [(''e1'', ''keep'')]
   = (True, mark_run_completed
              (update_user_decisions ex_store1 (ex_clock 200) 1 [(''e1'', ''keep'')]) 1)"
  by (simp add: execute_user_decisions_def ex_pending chosen_for_deletion_def
        finish_decisions_def ex_store1_fields)

text \<open>
  Claim C10. Whenever \<^verbatim>\<open>execute_user_decisions\<close> succeeds, the run is marked completed,
  whatever part of the run's emails the decision map covers: the rows whose email id
  is not a key of the map are left exactly as they were, and so a run can be completed
  while a row of it still has no user decision (the instance: run 1 of the sample
  store, with a decision for \<open>e1\<close> only).
\<close>

theorem partial_decisions_complete_run:
  "(execute_user_decisions g clk st rid decisions = (True, st') \<longrightarrow>
       (\<exists>r\<in>set (analysis_runs st'). ar_id r = rid)
     \<and> (\<forall>r\<in>set (analysis_runs st'). ar_id r = rid \<longrightarrow> status r = Completed)
     \<and> length (email_analysis st') = length (email_analysis st)
     \<and> (\<forall>i<length (email_analysis st).
           email_id (email_analysis st ! i) \<notin> fst ` set decisions \<longrightarrow>
           email_analysis st' ! i = email_analysis st ! i))
   \<and> (\<exists>g0 clk0 st0 rid0 ds0 st1.
         execute_user_decisions g0 clk0 st0 rid0 ds0 = (True, st1)
       \<and> (\<exists>r\<in>set (analysis_runs st1). ar_id r = rid0 \<and> status r = Completed)
       \<and> (\<exists>e\<in>set (email_analysis st1). run_id e = rid0 \<and> user_decision e = None))"
proof (intro conjI impI)
  assume a: "execute_user_decisions g clk st rid decisions = (True, st')"
  from execute_user_decisions_True[OF a] obtain pending rows s where
    p: "get_pending_run st = Some (pending, rows)" "ar_id pending = rid" and
    s: "email_analysis s = email_analysis st" "analysis_runs s = analysis_runs st" and
    st': "st' = mark_run_completed (update_user_decisions s clk rid decisions) rid"
    by blast
  have runs: "analysis_runs st' =
      map (\<lambda>r. if ar_id r = rid then r\<lparr> status := Completed \<rparr> else r) (analysis_runs st)"
    by (simp add: st' mark_run_completed_runs s)
  from get_pending_run_in_set[OF p(1)] have "pending \<in> set (analysis_runs st)" by simp
  then have "(\<lambda>r. if ar_id r = rid then r\<lparr> status := Completed \<rparr> else r) pending
               \<in> set (analysis_runs st')"
    unfolding runs set_map by (rule imageI)
  then have "pending\<lparr> status := Completed \<rparr> \<in> set (analysis_runs st')"
    using p(2) by simp
  then show "\<exists>r\<in>set (analysis_runs st'). ar_id r = rid"
    using p(2) by (intro bexI[of _ "pending\<lparr> status := Completed \<rparr>"]) simp_all
  show "\<forall>r\<in>set (analysis_runs st'). ar_id r = rid \<longrightarrow> status r = Completed"
    unfolding st' by (blast intro: mark_run_completed_status)
  show "length (email_analysis st') = length (email_analysis st)"
    by (simp add: st' update_user_decisions_rev s)
  show "\<forall>i<length (email_analysis st).
           email_id (email_analysis st ! i) \<notin> fst ` set decisions \<longrightarrow>
           email_analysis st' ! i = email_analysis st ! i"
    using update_user_decisions_untouched[of _ s decisions clk rid]
    by (simp add: st' s)
next
  let ?s = "mark_run_completed
              (update_user_decisions ex_store1 (ex_clock 200) 1 [(''e1'', ''keep'')]) 1"
  have r: "\<exists>r\<in>set (analysis_runs ?s). ar_id r = 1 \<and> status r = Completed"
    by (simp add: mark_run_completed_runs ex_store1_fields)
  have d: "\<exists>e\<in>set (email_analysis ?s). run_id e = 1 \<and> user_decision e = None"
    by (simp add: update_user_decisions_rev ex_store1_fields)
  from conjI[OF ex_keep_e1[of ex_gmail] conjI[OF r d]]
  show "\<exists>g0 clk0 st0 rid0 ds0 st1.
         execute_user_decisions g0 clk0 st0 rid0 ds0 = (True, st1)
       \<and> (\<exists>r\<in>set (analysis_runs st1). ar_id r = rid0 \<and> status r = Completed)
       \<and> (\<exists>e\<in>set (email_analysis st1). run_id e = rid0 \<and> user_decision e = None)"
    by (intro exI)
qed

theorem partial_decisions_complete_run_witness:
  "execute_user_decisions ex_gmail (ex_clock 200) ex_store1 1 [(''e1'', ''keep'')]
     = (True, mark_run_completed
                (update_user_decisions ex_store1 (ex_clock 200) 1 [(''e1'', ''keep'')]) 1)
   \<and> length (email_analysis (mark_run_completed
                (update_user_decisions ex_store1 (ex_clock 200) 1 [(''e1'', ''keep'')]) 1))
       = length (email_analysis ex_store1)
   \<and> email_analysis (mark_run_completed
                (update_user_decisions ex_store1 (ex_clock 200) 1 [(''e1'', ''keep'')]) 1) ! 1
       = email_analysis ex_store1 ! 1
   \<and> user_decision (email_analysis ex_store1 ! 1) = None"
proof -
  have i: "1 < length (email_analysis ex_store1)"
    "email_id (email_analysis ex_store1 ! 1) \<notin> fst ` set [(''e1'', ''keep'')]"
    "user_decision (email_analysis ex_store1 ! 1) = None"
    by (simp_all add: ex_store1_fields)
  from partial_decisions_complete_run[of ex_gmail "ex_clock 200" ex_store1 1
         "[(''e1'', ''keep'')]"] ex_keep_e1[of ex_gmail] i
  show ?thesis by blast
qed

section \<open>Deletion before completion\<close>

lemma ex_delete_failing:
  "delete_emails ex_gmail_failing [''e1''] = Inr False"
  "delete_emails ex_gmail_failing [''e2''] = Inr False"
  "delete_emails ex_gmail_failing [''e1'', ''e2''] = Inr False"
  by (simp_all add: delete_emails_def ex_gmail_failing_def ex_gmail_def)

lemma ex_chosen:
  "chosen_for_deletion [(''e1'', ''delete'')] (email_analysis ex_store1)
     = [ex_row 1 1 ''e1'' ''alice@example.com'' (PStr ''delete'') (PStr ''promotional'')
          (PFloat 0.9) (PStr ''ad'')]"
  "chosen_for_deletion [(''e1'', ''keep'')] (email_analysis ex_store1) = []"
  by (simp_all add: chosen_for_deletion_def ex_store1_fields)

lemma ex_delete_e1:
  "fst (execute_user_decisions ex_gmail (ex_clock 200) ex_store1 1 [(''e1'', ''delete'')])"
  "map de_email_id (deleted_emails
      (snd (execute_user_decisions ex_gmail (ex_clock 200) ex_store1 1 [(''e1'', ''delete'')])))
     = [''e1'']"
proof -
  have i: "ar_id (ex_run 1 100 None (Some ''abc'')) = 1" by simp
  have d: "delete_emails ex_gmail [''e1''] = Inr True"
    by (simp add: delete_emails_def ex_gmail_def)
  note m = execute_user_decisions_matching[OF ex_pending i, of ex_gmail "ex_clock 200"
             "[(''e1'', ''delete'')]"]
  show "fst (execute_user_decisions ex_gmail (ex_clock 200) ex_store1 1
               [(''e1'', ''delete'')])"
    unfolding m ex_chosen using d by simp
  show "map de_email_id (deleted_emails
      (snd (execute_user_decisions ex_gmail (ex_clock 200) ex_store1 1 [(''e1'', ''delete'')])))
     = [''e1'']"
    unfolding m ex_chosen using d
    by (simp add: log_deleted_emails_def ex_store1_fields)
qed

lemma execute_user_decisions_other_run:
  assumes "get_pending_run st = None
         \<or> (\<exists>pending rows. get_pending_run st = Some (pending, rows) \<and> ar_id pending \<noteq> rid)"
  shows "execute_user_decisions g clk st rid decisions = (False, st)"
  using assms by (auto simp: execute_user_decisions_def)

lemma delete_emails_nothing: "service_ready g \<Longrightarrow> delete_emails g [] = Inr True"
  by (simp add: delete_emails_def)

text \<open>
  Claim C4. For every call of \<^verbatim>\<open>execute_user_decisions\<close>, with \<open>chosen\<close> the rows of the
  pending run that the map decides \<^verbatim>\<open>delete\<close>: the deletion log grows only if \<open>chosen\<close>
  is not empty and the mailbox reported success on it. The call succeeds, or changes
  anything in the store (a decision, the status of the run, the log), only for the
  pending run and only if the deletions, if any, succeeded: the mailbox reported success
  on \<open>chosen\<close>, or \<open>chosen\<close> is empty and there is nothing to delete (on a mailbox whose
  service is available \<^verbatim>\<open>delete_emails\<close> reports success on the ids of \<open>chosen\<close> in
  both cases). If \<open>chosen\<close> is not empty and the mailbox does not report success, the
  call returns \<^verbatim>\<open>False\<close> and the store is as it was: no decision is recorded and the
  run is still pending. With nothing chosen the mailbox is not asked, nothing is
  logged, the decisions are written and the run is marked completed.
\<close>

theorem no_ghost_deletions:
  "(deleted_emails (snd (execute_user_decisions g clk st rid decisions)) \<noteq> deleted_emails st
      \<longrightarrow> (\<exists>pending rows. get_pending_run st = Some (pending, rows) \<and> ar_id pending = rid
             \<and> chosen_for_deletion decisions rows \<noteq> []
             \<and> delete_emails g (map email_id (chosen_for_deletion decisions rows))
                 = Inr True))
   \<and> (fst (execute_user_decisions g clk st rid decisions)
        \<or> snd (execute_user_decisions g clk st rid decisions) \<noteq> st
      \<longrightarrow> (\<exists>pending rows. get_pending_run st = Some (pending, rows) \<and> ar_id pending = rid
             \<and> (chosen_for_deletion decisions rows = []
                  \<or> delete_emails g (map email_id (chosen_for_deletion decisions rows))
                      = Inr True)
             \<and> (service_ready g \<longrightarrow>
                  delete_emails g (map email_id (chosen_for_deletion decisions rows))
                    = Inr True)))
   \<and> (get_pending_run st = Some (pending, rows) \<and> ar_id pending = rid
        \<and> chosen_for_deletion decisions rows \<noteq> []
        \<and> delete_emails g (map email_id (chosen_for_deletion decisions rows)) \<noteq> Inr True
      \<longrightarrow> execute_user_decisions g clk st rid decisions = (False, st))
   \<and> (get_pending_run st = Some (pending, rows) \<and> ar_id pending = rid
        \<and> chosen_for_deletion decisions rows = []
      \<longrightarrow> execute_user_decisions g clk st rid decisions
            = (True, mark_run_completed (update_user_decisions st clk rid decisions) rid))"
proof -
  let ?E = "execute_user_decisions g clk st rid decisions"
  have unchanged: "?E = (False, st)"
    if "\<not> (\<exists>p rs. get_pending_run st = Some (p, rs) \<and> ar_id p = rid)"
  proof (rule execute_user_decisions_other_run)
    show "get_pending_run st = None
        \<or> (\<exists>pending rows. get_pending_run st = Some (pending, rows) \<and> ar_id pending \<noteq> rid)"
    proof (cases "get_pending_run st")
      case None
      then show ?thesis by simp
    next
      case (Some pr)
      obtain p rs where "pr = (p, rs)" by (cases pr)
      with Some that show ?thesis by auto
    qed
  qed
  have matched: "(deleted_emails (snd ?E) \<noteq> deleted_emails st
          \<longrightarrow> chosen_for_deletion decisions rs \<noteq> []
            \<and> delete_emails g (map email_id (chosen_for_deletion decisions rs)) = Inr True)
       \<and> (fst ?E \<or> snd ?E \<noteq> st
          \<longrightarrow> (chosen_for_deletion decisions rs = []
                 \<or> delete_emails g (map email_id (chosen_for_deletion decisions rs)) = Inr True)
              \<and> (service_ready g \<longrightarrow>
                   delete_emails g (map email_id (chosen_for_deletion decisions rs))
                     = Inr True))
       \<and> (chosen_for_deletion decisions rs \<noteq> []
            \<and> delete_emails g (map email_id (chosen_for_deletion decisions rs)) \<noteq> Inr True
          \<longrightarrow> ?E = (False, st))
       \<and> (chosen_for_deletion decisions rs = []
          \<longrightarrow> ?E = (True, mark_run_completed (update_user_decisions st clk rid decisions) rid))"
    if p: "get_pending_run st = Some (p, rs)" "ar_id p = rid" for p rs
  proof -
    note m = execute_user_decisions_matching[OF p, of g clk decisions]
    show ?thesis
    proof (cases "chosen_for_deletion decisions rs = []")
      case True
      with m show ?thesis by (simp add: delete_emails_nothing)
    next
      case False
      show ?thesis
      proof (cases "delete_emails g (map email_id (chosen_for_deletion decisions rs)) = Inr True")
        case True
        with m False show ?thesis by simp
      next
        case no: False
        with m False show ?thesis by simp
      qed
    qed
  qed
  show ?thesis
  proof (cases "\<exists>p rs. get_pending_run st = Some (p, rs) \<and> ar_id p = rid")
    case False
    then have "\<not> (get_pending_run st = Some (pending, rows) \<and> ar_id pending = rid)"
      by blast
    with unchanged[OF False] show ?thesis by (intro conjI impI) simp_all
  next
    case True
    then obtain p rs where p: "get_pending_run st = Some (p, rs)" "ar_id p = rid" by blast
    note f = matched[OF p]
    show ?thesis
    proof (intro conjI impI)
      assume "deleted_emails (snd ?E) \<noteq> deleted_emails st"
      with f p show "\<exists>pending rows. get_pending_run st = Some (pending, rows)
             \<and> ar_id pending = rid \<and> chosen_for_deletion decisions rows \<noteq> []
             \<and> delete_emails g (map email_id (chosen_for_deletion decisions rows)) = Inr True"
        by blast
    next
      assume "fst ?E \<or> snd ?E \<noteq> st"
      with f have "(chosen_for_deletion decisions rs = []
                 \<or> delete_emails g (map email_id (chosen_for_deletion decisions rs)) = Inr True)
              \<and> (service_ready g \<longrightarrow>
                   delete_emails g (map email_id (chosen_for_deletion decisions rs))
                     = Inr True)"
        by blast
      with p show "\<exists>pending rows. get_pending_run st = Some (pending, rows)
             \<and> ar_id pending = rid
             \<and> (chosen_for_deletion decisions rows = []
                  \<or> delete_emails g (map email_id (chosen_for_deletion decisions rows))
                      = Inr True)
             \<and> (service_ready g \<longrightarrow>
                  delete_emails g (map email_id (chosen_for_deletion decisions rows))
                    = Inr True)"
        by blast
    next
      assume a: "get_pending_run st = Some (pending, rows) \<and> ar_id pending = rid
        \<and> chosen_for_deletion decisions rows \<noteq> []
        \<and> delete_emails g (map email_id (chosen_for_deletion decisions rows)) \<noteq> Inr True"
      with p have "rows = rs" by simp
      with f a show "?E = (False, st)" by blast
    next
      assume a: "get_pending_run st = Some (pending, rows) \<and> ar_id pending = rid
        \<and> chosen_for_deletion decisions rows = []"
      with p have "rows = rs" by simp
      with f a show "?E = (True, mark_run_completed
                                   (update_user_decisions st clk rid decisions) rid)"
        by blast
    qed
  qed
qed

theorem no_ghost_deletions_witness:
  "execute_user_decisions ex_gmail_failing (ex_clock 200) ex_store1 1 [(''e1'', ''delete'')]
     = (False, ex_store1)
   \<and> execute_user_decisions ex_gmail_failing (ex_clock 200) ex_store1 1 [(''e1'', ''keep'')]
       = (True, mark_run_completed
                  (update_user_decisions ex_store1 (ex_clock 200) 1 [(''e1'', ''keep'')]) 1)
   \<and> service_ready ex_gmail
   \<and> fst (execute_user_decisions ex_gmail (ex_clock 200) ex_store1 1 [(''e1'', ''delete'')])
   \<and> map de_email_id (deleted_emails
        (snd (execute_user_decisions ex_gmail (ex_clock 200) ex_store1 1
                [(''e1'', ''delete'')]))) = [''e1'']
   \<and> delete_emails ex_gmail
        (map email_id (chosen_for_deletion [(''e1'', ''delete'')] (email_analysis ex_store1)))
       = Inr True"
proof -
  let ?run = "ex_run 1 100 None (Some ''abc'')"
  have i: "ar_id ?run = 1" by simp
  have c: "chosen_for_deletion [(''e1'', ''delete'')] (email_analysis ex_store1) \<noteq> []"
    by (simp add: ex_chosen)
  have k: "chosen_for_deletion [(''e1'', ''keep'')] (email_analysis ex_store1) = []"
    by (simp add: ex_chosen)
  have d: "delete_emails ex_gmail_failing
        (map email_id (chosen_for_deletion [(''e1'', ''delete'')] (email_analysis ex_store1)))
       \<noteq> Inr True"
    by (simp add: ex_chosen ex_delete_failing)
  have s: "service_ready ex_gmail" by (simp add: ex_gmail_def)
  have l: "deleted_emails (snd (execute_user_decisions ex_gmail (ex_clock 200) ex_store1 1
                [(''e1'', ''delete'')])) \<noteq> deleted_emails ex_store1"
    using ex_delete_e1(2) by (auto simp: ex_store1_fields)
  have 1: "execute_user_decisions ex_gmail_failing (ex_clock 200) ex_store1 1
          [(''e1'', ''delete'')] = (False, ex_store1)"
    by (rule no_ghost_deletions[THEN conjunct2, THEN conjunct2, THEN conjunct1, THEN mp,
              of ex_store1 ?run "email_analysis ex_store1"])
       (intro conjI ex_pending i c d)
  have 2: "execute_user_decisions ex_gmail_failing (ex_clock 200) ex_store1 1
          [(''e1'', ''keep'')]
       = (True, mark_run_completed
                  (update_user_decisions ex_store1 (ex_clock 200) 1 [(''e1'', ''keep'')]) 1)"
    by (rule no_ghost_deletions[THEN conjunct2, THEN conjunct2, THEN conjunct2, THEN mp,
              of ex_store1 ?run "email_analysis ex_store1"])
       (intro conjI ex_pending i k)
  from no_ghost_deletions[THEN conjunct1, THEN mp, OF l]
  obtain pending rows where
    "get_pending_run ex_store1 = Some (pending, rows)"
    "delete_emails ex_gmail (map email_id (chosen_for_deletion [(''e1'', ''delete'')] rows))
       = Inr True"
    by blast
  with ex_pending have 3: "delete_emails ex_gmail
        (map email_id (chosen_for_deletion [(''e1'', ''delete'')] (email_analysis ex_store1)))
       = Inr True"
    by simp
  from 1 2 3 s ex_delete_e1 show ?thesis by (intro conjI)
qed

section \<open>Decisions once set\<close>

lemma merge_reanalysis_with_new_page_shape:
  assumes "merge_reanalysis_with_new_page st clk rea analysis es ct nt = Inr (rid, st')"
  shows "\<exists>r data rows.
           analysis_runs st' = analysis_runs st @ [r] \<and> ar_id r = rid \<and> status r = Pending
         \<and> total_emails r = PInt (int (length rea) + int (length es))
         \<and> current_page_token r = ct \<and> next_page_token r = nt
         \<and> email_analysis st' = email_analysis st @ rows
         \<and> deleted_emails st' = deleted_emails st
         \<and> list_all2 (\<lambda>e d. page_row analysis rid e = Inr d) es data
         \<and> list_all2 same_email (map (reanalyzed_row rid) rea @ data) rows"
  using assms
  by (auto simp: merge_reanalysis_with_new_page_def insert_run_def bind_err_Inr_iff Let_def
           split: if_splits dest!: page_rows_all2 insert_email_rows_all2)

text \<open>
  Claim C9, as stated, fails: \<^verbatim>\<open>update_user_decisions\<close> has no condition on the decision
  a row already has. The row of \<open>e1\<close> is decided \<^verbatim>\<open>delete\<close>, and a second call with the
  same email id makes it \<^verbatim>\<open>keep\<close>.
\<close>

theorem decision_overwritten:
  "map user_decision (email_analysis
      (update_user_decisions ex_store1 (ex_clock 200) 1 [(''e1'', ''delete'')]))
     = [Some ''delete'', None]
   \<and> map user_decision (email_analysis
      (update_user_decisions
         (update_user_decisions ex_store1 (ex_clock 200) 1 [(''e1'', ''delete'')])
         (ex_clock 300) 1 [(''e1'', ''keep'')]))
     = [Some ''keep'', None]"
  by (simp add: update_user_decisions_rev ex_store1_fields)

text \<open>
  Claim C9, amended. \<^verbatim>\<open>update_user_decisions\<close> gives every row of the run whose email id
  is a key of the decision map the decision of the map and the time of the call,
  whether or not the row had a decision, and leaves every other row as it was. No other
  operation of the store changes a row that exists: the three that save a run only add
  rows after the present ones, and marking a run and logging deletions leave the table
  of rows alone.
\<close>

theorem decisions_change_only_by_update:
  "(distinct (map fst decisions) \<longrightarrow>
      email_analysis (update_user_decisions st clk rid decisions) =
        map (\<lambda>e. if run_id e = rid
                  then (case map_of decisions (email_id e) of
                          None \<Rightarrow> e
                        | Some d \<Rightarrow> e\<lparr> user_decision := Some d,
                                       processed_at := Some (timestamp clk) \<rparr>)
                  else e)
            (email_analysis st))
   \<and> (save_page_analysis st clk es analysis ct nt = Inr (n1, st1) \<longrightarrow>
        take (length (email_analysis st)) (email_analysis st1) = email_analysis st)
   \<and> (save_analysis_run st clk es analysis = Inr (n2, st2) \<longrightarrow>
        take (length (email_analysis st)) (email_analysis st2) = email_analysis st)
   \<and> (merge_reanalysis_with_new_page st clk rea analysis es ct nt = Inr (n3, st3) \<longrightarrow>
        take (length (email_analysis st)) (email_analysis st3) = email_analysis st)
   \<and> email_analysis (mark_old_run_superseded st rid) = email_analysis st
   \<and> email_analysis (mark_run_completed st rid) = email_analysis st
   \<and> email_analysis (log_deleted_emails st clk deleted) = email_analysis st"
proof (intro conjI impI)
  assume "distinct (map fst decisions)"
  then show "email_analysis (update_user_decisions st clk rid decisions) =
        map (\<lambda>e. if run_id e = rid
                  then (case map_of decisions (email_id e) of
                          None \<Rightarrow> e
                        | Some d \<Rightarrow> e\<lparr> user_decision := Some d,
                                       processed_at := Some (timestamp clk) \<rparr>)
                  else e)
            (email_analysis st)"
    by (rule update_user_decisions_rows)
next
  assume "save_page_analysis st clk es analysis ct nt = Inr (n1, st1)"
  from save_page_analysis_shape[OF this] obtain rows where
    "email_analysis st1 = email_analysis st @ rows" by blast
  then show "take (length (email_analysis st)) (email_analysis st1) = email_analysis st"
    by simp
next
  assume "save_analysis_run st clk es analysis = Inr (n2, st2)"
  from save_analysis_run_shape[OF this] obtain rows where
    "email_analysis st2 = email_analysis st @ rows" by blast
  then show "take (length (email_analysis st)) (email_analysis st2) = email_analysis st"
    by simp
next
  assume "merge_reanalysis_with_new_page st clk rea analysis es ct nt = Inr (n3, st3)"
  from merge_reanalysis_with_new_page_shape[OF this] obtain rows where
    "email_analysis st3 = email_analysis st @ rows" by blast
  then show "take (length (email_analysis st)) (email_analysis st3) = email_analysis st"
    by simp
qed simp_all

theorem decisions_change_only_by_update_witness:
  "distinct (map fst [(''e1'', ''keep'')])
   \<and> map user_decision (email_analysis
        (update_user_decisions
           (update_user_decisions ex_store1 (ex_clock 200) 1 [(''e1'', ''delete'')])
           (ex_clock 300) 1 [(''e1'', ''keep'')]))
       = [Some ''keep'', None]"
proof -
  have d: "distinct (map fst [(''e1'', ''keep'')])" by simp
  from decisions_change_only_by_update[of "[(''e1'', ''keep'')]"
         "update_user_decisions ex_store1 (ex_clock 200) 1 [(''e1'', ''delete'')]"
         "ex_clock 300" 1] d
  have "email_analysis
        (update_user_decisions
           (update_user_decisions ex_store1 (ex_clock 200) 1 [(''e1'', ''delete'')])
           (ex_clock 300) 1 [(''e1'', ''keep'')])
      = map (\<lambda>e. if run_id e = 1
                  then (case map_of [(''e1'', ''keep'')] (email_id e) of
                          None \<Rightarrow> e
                        | Some d \<Rightarrow> e\<lparr> user_decision := Some d,
                                       processed_at := Some (timestamp (ex_clock 300)) \<rparr>)
                  else e)
            (email_analysis
               (update_user_decisions ex_store1 (ex_clock 200) 1 [(''e1'', ''delete'')]))"
    by blast
  then show ?thesis
    by (simp add: update_user_decisions_rev ex_store1_fields)
qed

section \<open>Processing a page\<close>

lemma continue_from_last_page_eq:
  "continue_from_last_page cfg g groq clk st =
     run_paginated_analysis cfg g groq clk st (resume_token st)"
  by (simp add: continue_from_last_page_def resume_token_def split: option.splits)

lemma run_paginated_analysis_nothing_left:
  assumes "gmail_days_to_analyze cfg = Some days"
      and "get_email_page g tok (page_size_of cfg) days = Inr page"
      and "apply_preprocessing_filters cfg (emails page) = []"
  shows "run_paginated_analysis cfg g groq clk st tok = (None, st)"
  using assms by (simp add: run_paginated_analysis_def Let_def)

text \<open>Either nothing is stored, or the filtered page was analysed and saved.\<close>

lemma run_paginated_analysis_cases:
  assumes "run_paginated_analysis cfg g groq clk st tok = (res, st')"
  shows "(res = None \<and> st' = st)
       \<or> (\<exists>days page rs analysis rid.
             gmail_days_to_analyze cfg = Some days
           \<and> get_email_page g tok (page_size_of cfg) days = Inr page
           \<and> deletion_rules cfg = Some rs
           \<and> analyze_emails groq (apply_preprocessing_filters cfg (emails page)) rs
               = Some analysis
           \<and> save_page_analysis st clk (apply_preprocessing_filters cfg (emails page))
                 analysis tok (page_next_token page) = Inr (rid, st')
           \<and> (\<forall>s. res = Some s \<longrightarrow>
                  res_run_id s = rid
                \<and> res_emails s = apply_preprocessing_filters cfg (emails page)
                \<and> res_next_page_token s = page_next_token page
                \<and> res_has_more_pages s = has_more page))"
proof (cases "gmail_days_to_analyze cfg")
  case None
  with assms show ?thesis by (simp add: run_paginated_analysis_def)
next
  case (Some days)
  note days = this
  show ?thesis
  proof (cases "get_email_page g tok (page_size_of cfg) days")
    case (Inl e)
    with assms days show ?thesis by (simp add: run_paginated_analysis_def)
  next
    case (Inr page)
    note page = this
    let ?f = "apply_preprocessing_filters cfg (emails page)"
    show ?thesis
    proof (cases "emails page = [] \<or> ?f = []")
      case True
      then have "?f = []" by (auto simp: apply_preprocessing_filters_def)
      from run_paginated_analysis_nothing_left[OF days page this, of groq clk st] assms
      show ?thesis by simp
    next
      case False
      note ne = this
      show ?thesis
      proof (cases "deletion_rules cfg")
        case None
        with assms days page ne show ?thesis
          by (simp add: run_paginated_analysis_def Let_def)
      next
        case (Some rs)
        note rs = this
        show ?thesis
        proof (cases "analyze_emails groq ?f rs")
          case None
          with assms days page ne rs show ?thesis
            by (simp add: run_paginated_analysis_def Let_def)
        next
          case (Some analysis)
          note an = this
          show ?thesis
          proof (cases "py_truthy analysis")
            case False
            with assms days page ne rs an show ?thesis
              by (simp add: run_paginated_analysis_def Let_def)
          next
            case True
            note tr = this
            show ?thesis
            proof (cases "save_page_analysis st clk ?f analysis tok (page_next_token page)")
              case (Inl e)
              with assms days page ne rs an tr show ?thesis
                by (simp add: run_paginated_analysis_def Let_def)
            next
              case (Inr p)
              obtain rid s1 where p: "p = (rid, s1)" by (cases p)
              note sv = Inr[unfolded p]
              have st': "st' = s1"
                using assms days page ne rs an tr sv
                by (simp add: run_paginated_analysis_def Let_def split: sum.splits)
              have r: "\<forall>s. res = Some s \<longrightarrow>
                        res_run_id s = rid \<and> res_emails s = ?f
                      \<and> res_next_page_token s = page_next_token page
                      \<and> res_has_more_pages s = has_more page"
                using assms days page ne rs an tr sv
                by (auto simp: run_paginated_analysis_def Let_def split: sum.splits)
              from days page rs an sv st' r show ?thesis by blast
            qed
          qed
        qed
      qed
    qed
  qed
qed

lemma run_paginated_analysis_elim:
  assumes "run_paginated_analysis cfg g groq clk st tok = (res, st')"
  obtains (Nothing) "res = None" "st' = st"
  | (Saved) days page rs analysis rid where
      "gmail_days_to_analyze cfg = Some days"
      "get_email_page g tok (page_size_of cfg) days = Inr page"
      "deletion_rules cfg = Some rs"
      "analyze_emails groq (apply_preprocessing_filters cfg (emails page)) rs = Some analysis"
      "save_page_analysis st clk (apply_preprocessing_filters cfg (emails page))
         analysis tok (page_next_token page) = Inr (rid, st')"
      "\<And>s. res = Some s \<Longrightarrow>
             res_run_id s = rid
           \<and> res_emails s = apply_preprocessing_filters cfg (emails page)
           \<and> res_next_page_token s = page_next_token page
           \<and> res_has_more_pages s = has_more page"
  using run_paginated_analysis_cases[OF assms]
  by (elim disjE exE conjE) (rule Nothing, assumption, assumption, rule Saved, assumption+, blast)

lemma saved_rows_senders:
  assumes d: "list_all2 (\<lambda>e d. page_row analysis rid e = Inr d) es data"
      and r: "list_all2 same_email data rows"
  shows "map sender rows = map msg_sender es"
proof (rule nth_equalityI)
  have len: "length data = length es" "length rows = length es"
    using list_all2_lengthD[OF d] list_all2_lengthD[OF r] by simp_all
  show "length (map sender rows) = length (map msg_sender es)" using len by simp
  fix i assume "i < length (map sender rows)"
  then have i: "i < length es" using len by simp
  then have "page_row analysis rid (es ! i) = Inr (data ! i)" "same_email (data ! i) (rows ! i)"
    using d r len by (auto dest: list_all2_nthD list_all2_nthD2)
  then show "map sender rows ! i = map msg_sender es ! i"
    using i len by (auto simp: same_email_def dest: page_row_fields)
qed

lemma batch_unprotected:
  "\<forall>e\<in>set (map email_summary (take 30 (apply_preprocessing_filters cfg es))).
      \<not> sender_is_protected cfg (msg_sender e)"
  by (auto simp: email_summary_def apply_preprocessing_filters_def dest!: in_set_takeD)

text \<open>The two string functions compute what Python's \<^verbatim>\<open>in\<close> does on strings.\<close>

lemma starts_with_iff: "starts_with s p \<longleftrightarrow> (\<exists>b. s = p @ b)"
  by (induction s p rule: starts_with.induct) auto

lemma str_contains_iff: "str_contains s p \<longleftrightarrow> (\<exists>a b. s = a @ p @ b)"
proof (induction s)
  case Nil
  show ?case by simp
next
  case (Cons c cs)
  have "(\<exists>a b. c # cs = a @ p @ b) \<longleftrightarrow> (\<exists>b. c # cs = p @ b) \<or> (\<exists>a b. cs = a @ p @ b)"
  proof
    assume "\<exists>a b. c # cs = a @ p @ b"
    then obtain a b where ab: "c # cs = a @ p @ b" by blast
    show "(\<exists>b. c # cs = p @ b) \<or> (\<exists>a b. cs = a @ p @ b)"
    proof (cases a)
      case Nil
      with ab show ?thesis by auto
    next
      case (Cons x xs)
      with ab have "cs = xs @ p @ b" by simp
      then show ?thesis by blast
    qed
  next
    assume "(\<exists>b. c # cs = p @ b) \<or> (\<exists>a b. cs = a @ p @ b)"
    then show "\<exists>a b. c # cs = a @ p @ b"
    proof
      assume "\<exists>b. c # cs = p @ b"
      then obtain b where "c # cs = [] @ p @ b" by auto
      then show ?thesis by blast
    next
      assume "\<exists>a b. cs = a @ p @ b"
      then obtain a b where "c # cs = (c # a) @ p @ b" by auto
      then show ?thesis by blast
    qed
  qed
  with Cons show ?case by (simp add: starts_with_iff)
qed

lemma analyze_emails_cong:
  assumes "\<forall>batch rs. (\<forall>e\<in>set batch. \<not> sender_is_protected cfg (msg_sender e))
             \<longrightarrow> groq' batch rs = groq batch rs"
  shows "analyze_emails groq' (apply_preprocessing_filters cfg es) rs
       = analyze_emails groq (apply_preprocessing_filters cfg es) rs"
  using assms batch_unprotected[of cfg es] by (simp add: analyze_emails_def)

lemma ex_first_page:
  "snd (run_paginated_analysis ex_config ex_gmail ex_groq (ex_clock 100) empty_store None)
     = ex_store1"
  "fst (run_paginated_analysis ex_config ex_gmail ex_groq (ex_clock 100) empty_store None)
     \<noteq> None"
  by (simp_all add: ex_defs op_defs)

lemma ex_protected: "sender_is_protected ex_config ''boss@corp.com''"
  by (simp add: sender_is_protected_def ex_config_def ex_rules_def)

text \<open>
  Claim C7. Whatever \<^verbatim>\<open>run_paginated_analysis\<close> (or \<^verbatim>\<open>continue_from_last_page\<close>) stores,
  no row it adds has a sender that contains a protected substring: the emails of
  protected senders are filtered out of the page before the engine is asked, so they
  get no row at all, and so no \<^verbatim>\<open>delete\<close> recommendation. The filter comes strictly
  before classification: the outcome of the call does not depend on what the engine
  would answer on a batch that holds a protected sender.
\<close>

theorem protected_senders_never_stored:
  assumes "run_paginated_analysis cfg g groq clk st tok = (res, st')
         \<or> continue_from_last_page cfg g groq clk st = (res, st')"
  shows "(\<exists>rows. email_analysis st' = email_analysis st @ rows
            \<and> (\<forall>r\<in>set rows. \<not> sender_is_protected cfg (sender r)))
       \<and> (\<forall>groq'.
            (\<forall>batch rs. (\<forall>e\<in>set batch. \<not> sender_is_protected cfg (msg_sender e))
               \<longrightarrow> groq' batch rs = groq batch rs)
            \<longrightarrow> run_paginated_analysis cfg g groq' clk st tok
                  = run_paginated_analysis cfg g groq clk st tok
              \<and> continue_from_last_page cfg g groq' clk st
                  = continue_from_last_page cfg g groq clk st)"
proof
  from assms obtain t where run: "run_paginated_analysis cfg g groq clk st t = (res, st')"
    by (auto simp: continue_from_last_page_eq)
  from run show "\<exists>rows. email_analysis st' = email_analysis st @ rows
            \<and> (\<forall>r\<in>set rows. \<not> sender_is_protected cfg (sender r))"
  proof (cases rule: run_paginated_analysis_elim)
    case Nothing
    then have "email_analysis st' = email_analysis st @ []" by simp
    then show ?thesis by (intro exI[of _ "[]"]) simp
  next
    case (Saved days page rs analysis rid)
    from save_page_analysis_shape[OF Saved(5)] obtain data rows where
      rows: "email_analysis st' = email_analysis st @ rows" and
      d: "list_all2 (\<lambda>e d. page_row analysis rid e = Inr d)
            (apply_preprocessing_filters cfg (emails page)) data" and
      r: "list_all2 same_email data rows"
      by blast
    have s: "sender ` set rows
            = msg_sender ` set (apply_preprocessing_filters cfg (emails page))"
      using arg_cong[OF saved_rows_senders[OF d r], of set] by simp
    have "\<not> sender_is_protected cfg (sender x)" if "x \<in> set rows" for x
    proof -
      from that have "sender x \<in> sender ` set rows" by (rule imageI)
      with s obtain e where "e \<in> set (apply_preprocessing_filters cfg (emails page))"
        and "sender x = msg_sender e" by auto
      then show ?thesis by (simp add: apply_preprocessing_filters_def)
    qed
    with rows show ?thesis by blast
  qed
next
  show "\<forall>groq'.
            (\<forall>batch rs. (\<forall>e\<in>set batch. \<not> sender_is_protected cfg (msg_sender e))
               \<longrightarrow> groq' batch rs = groq batch rs)
            \<longrightarrow> run_paginated_analysis cfg g groq' clk st tok
                  = run_paginated_analysis cfg g groq clk st tok
              \<and> continue_from_last_page cfg g groq' clk st
                  = continue_from_last_page cfg g groq clk st"
  proof (intro allI impI)
    fix groq'
    assume a: "\<forall>batch rs. (\<forall>e\<in>set batch. \<not> sender_is_protected cfg (msg_sender e))
               \<longrightarrow> groq' batch rs = groq batch rs"
    have "run_paginated_analysis cfg g groq' clk st t
            = run_paginated_analysis cfg g groq clk st t" for t
    proof (cases "gmail_days_to_analyze cfg")
      case None
      then show ?thesis by (simp add: run_paginated_analysis_def)
    next
      case (Some days)
      show ?thesis
      proof (cases "get_email_page g t (page_size_of cfg) days")
        case (Inl e)
        with Some show ?thesis by (simp add: run_paginated_analysis_def)
      next
        case (Inr page)
        with Some show ?thesis
          by (cases "deletion_rules cfg")
             (simp_all add: run_paginated_analysis_def Let_def analyze_emails_cong[OF a])
      qed
    qed
    then show "run_paginated_analysis cfg g groq' clk st tok
                  = run_paginated_analysis cfg g groq clk st tok
              \<and> continue_from_last_page cfg g groq' clk st
                  = continue_from_last_page cfg g groq clk st"
      by (simp add: continue_from_last_page_eq)
  qed
qed

theorem protected_senders_never_stored_witness:
  "snd (run_paginated_analysis ex_config ex_gmail ex_groq (ex_clock 100) empty_store None)
     = ex_store1
   \<and> sender_is_protected ex_config ''boss@corp.com''
   \<and> messages_get ex_gmail ''e3'' = Some (ex_mail ''e3'' ''boss@corp.com'')
   \<and> (\<exists>rows. email_analysis ex_store1 = email_analysis empty_store @ rows
          \<and> (\<forall>r\<in>set rows. \<not> sender_is_protected ex_config (sender r)))"
proof -
  let ?x = "run_paginated_analysis ex_config ex_gmail ex_groq (ex_clock 100) empty_store None"
  have "?x = (fst ?x, snd ?x)" by simp
  from protected_senders_never_stored[OF disjI1[OF this]]
  have "\<exists>rows. email_analysis (snd ?x) = email_analysis empty_store @ rows
          \<and> (\<forall>r\<in>set rows. \<not> sender_is_protected ex_config (sender r))"
    by blast
  moreover have "messages_get ex_gmail ''e3'' = Some (ex_mail ''e3'' ''boss@corp.com'')"
    by (simp add: ex_gmail_def)
  ultimately show ?thesis
    using ex_protected by (simp add: ex_first_page)
qed

lemma ex_empty_page:
  "get_email_page ex_gmail_empty None (page_size_of ex_config) 30
     = Inr \<lparr> emails = [], page_next_token = None, has_more = False \<rparr>"
  by (simp add: get_email_page_def ex_gmail_empty_def ex_gmail_def List.map_filter_def)

lemma ex_not_json:
  "run_paginated_analysis ex_config ex_gmail (\<lambda>batch rs. NotJson) (ex_clock 100) empty_store
     None = (None, empty_store)"
  by (simp add: ex_defs op_defs)

text \<open>
  Claim C8, as stated, fails in its last part: the caller gets \<^verbatim>\<open>None\<close> for an empty
  page and \<^verbatim>\<open>None\<close> for a failed classification, so the two outcomes are the same
  value.
\<close>

theorem empty_page_looks_like_failure:
  "run_paginated_analysis ex_config ex_gmail_empty ex_groq (ex_clock 100) empty_store None
     = (None, empty_store)
   \<and> run_paginated_analysis ex_config ex_gmail (\<lambda>batch rs. NotJson) (ex_clock 100)
       empty_store None = (None, empty_store)
   \<and> fst (run_paginated_analysis ex_config ex_gmail_empty ex_groq (ex_clock 100) empty_store
            None)
       = fst (run_paginated_analysis ex_config ex_gmail (\<lambda>batch rs. NotJson) (ex_clock 100)
            empty_store None)"
proof -
  have d: "gmail_days_to_analyze ex_config = Some 30" by (simp add: ex_config_def)
  have "run_paginated_analysis ex_config ex_gmail_empty ex_groq (ex_clock 100) empty_store None
     = (None, empty_store)"
    by (rule run_paginated_analysis_nothing_left[OF d ex_empty_page])
       (simp add: apply_preprocessing_filters_def)
  then show ?thesis by (simp add: ex_not_json)
qed

text \<open>
  Claim C8, amended. When the fetched page has no email, or the filter leaves none,
  \<^verbatim>\<open>run_paginated_analysis\<close> creates no run and leaves the store (so also the number of
  runs) unchanged. It returns \<^verbatim>\<open>None\<close>, which is also what it returns on a failure.
\<close>

theorem nothing_to_analyze_creates_no_run:
  assumes "gmail_days_to_analyze cfg = Some days"
      and "get_email_page g tok (page_size_of cfg) days = Inr page"
      and "emails page = [] \<or> apply_preprocessing_filters cfg (emails page) = []"
  shows "run_paginated_analysis cfg g groq clk st tok = (None, st)
       \<and> length (analysis_runs (snd (run_paginated_analysis cfg g groq clk st tok)))
           = length (analysis_runs st)"
proof -
  from assms(3) have "apply_preprocessing_filters cfg (emails page) = []"
    by (auto simp: apply_preprocessing_filters_def)
  from run_paginated_analysis_nothing_left[OF assms(1,2) this, of groq clk st]
  show ?thesis by simp
qed

theorem nothing_to_analyze_creates_no_run_witness:
  "gmail_days_to_analyze ex_config = Some 30
   \<and> get_email_page ex_gmail_empty None (page_size_of ex_config) 30
       = Inr \<lparr> emails = [], page_next_token = None, has_more = False \<rparr>
   \<and> run_paginated_analysis ex_config ex_gmail_empty ex_groq (ex_clock 100) empty_store None
       = (None, empty_store)"
proof -
  have d: "gmail_days_to_analyze ex_config = Some 30" by (simp add: ex_config_def)
  have e: "emails \<lparr> emails = [], page_next_token = None, has_more = False \<rparr> = []
         \<or> apply_preprocessing_filters ex_config
              (emails \<lparr> emails = [], page_next_token = None, has_more = False \<rparr>) = []"
    by simp
  from nothing_to_analyze_creates_no_run[OF d ex_empty_page e, of ex_groq "ex_clock 100"
         empty_store] d ex_empty_page
  show ?thesis by simp
qed



section \<open>Failure of the engine, malformed output\<close>



























section \<open>The next page\<close>







end
